theory Spec2Isabelle
  imports Main
begin

section \<open>Constants of the simulation (runway.c, lines 31--47)\<close>

definition MAX_RUNWAY_CAPACITY :: int where "MAX_RUNWAY_CAPACITY = 2"
definition CONTROLLER_LIMIT :: int where "CONTROLLER_LIMIT = 8"
definition MAX_AIRCRAFT :: nat where "MAX_AIRCRAFT = 1000"
definition FUEL_MIN :: int where "FUEL_MIN = 20"
definition FUEL_MAX :: int where "FUEL_MAX = 60"
definition DIRECTION_LIMIT :: int where "DIRECTION_LIMIT = 3"

definition COMMERCIAL :: int where "COMMERCIAL = 0"
definition CARGO :: int where "CARGO = 1"
definition EMERGENCY :: int where "EMERGENCY = 2"

definition NORTH :: int where "NORTH = 0"
definition SOUTH :: int where "SOUTH = 1"

section \<open>The shared runway state and the aircraft records\<close>

text \<open>
  The file-scope variables that the mutex protects, as one record. They are C \<open>int\<close>s; the
  counters move by one per admission or release and a run has at most 1000 aircraft, so
  no counter leaves the range of a 32-bit \<open>int\<close> and they are modelled as \<open>int\<close>.
\<close>

record runway =
  waiting_commercial :: int
  waiting_cargo :: int
  waiting_emergency :: int
  waiting_north :: int
  waiting_south :: int
  fuel_emergency_waiting :: int
  last_regular_type :: int
  regular_type_count :: int
  aircraft_on_runway :: int
  commercial_on_runway :: int
  cargo_on_runway :: int
  emergency_on_runway :: int
  aircraft_since_break :: int
  current_direction :: int
  consecutive_direction :: int

text \<open>The struct \<open>aircraft_info\<close>.\<close>

record aircraft_info =
  arrival_time :: int
  runway_time :: int
  aircraft_id :: int
  aircraft_type :: int
  fuel_reserve :: int
  arrival_timestamp :: int

section \<open>The admission predicate \<open>can_enter_common\<close> (lines 112--210)\<close>

text \<open>
  The value the code computes into \<open>opposite_waiting\<close> (lines 192--200, and again in the
  controller, lines 336--348): it stays 0 when the direction is neither NORTH nor SOUTH.
\<close>

definition opposite_waiting :: "runway \<Rightarrow> int" where
  "opposite_waiting g =
     (if current_direction g = NORTH then waiting_south g
      else if current_direction g = SOUTH then waiting_north g
      else 0)"

definition other_type_waiting :: "runway \<Rightarrow> int \<Rightarrow> int" where
  "other_type_waiting g ty =
     (if ty = COMMERCIAL then waiting_cargo g else waiting_commercial g)"

definition can_enter_common :: "runway \<Rightarrow> 'a aircraft_info_scheme \<Rightarrow> int \<Rightarrow> int \<Rightarrow> int" where
  "can_enter_common g ai desired_direction fuel_emergency =
     (if aircraft_on_runway g \<ge> MAX_RUNWAY_CAPACITY then 0
      else if aircraft_since_break g \<ge> CONTROLLER_LIMIT then 0
      else if (aircraft_type ai = COMMERCIAL \<or> aircraft_type ai = CARGO)
              \<and> desired_direction \<noteq> current_direction g then 0
      else if aircraft_type ai = COMMERCIAL \<and> cargo_on_runway g > 0 then 0
      else if aircraft_type ai = CARGO \<and> commercial_on_runway g > 0 then 0
      else if fuel_emergency_waiting g > 0 \<and> fuel_emergency = 0 then 0
      else if aircraft_type ai \<noteq> EMERGENCY \<and> waiting_emergency g > 0 then 0
      else if (aircraft_type ai = COMMERCIAL \<or> aircraft_type ai = CARGO)
              \<and> regular_type_count g \<ge> 4
              \<and> last_regular_type g = aircraft_type ai
              \<and> other_type_waiting g (aircraft_type ai) > 0 then 0
      else if desired_direction = current_direction g
              \<and> consecutive_direction g \<ge> DIRECTION_LIMIT
              \<and> opposite_waiting g > 0 then 0
      else 1)"

subsection \<open>The eight checks as the specification words them\<close>

text \<open>
  A request is a class, a preferred direction and an escalation flag. Each check below
  is true when the request passes it. The two directions are NORTH and SOUTH, each the
  opposite of the other; the requesters waiting for a direction are counted by
  \<open>waiting_north\<close> and \<open>waiting_south\<close>.
\<close>

definition is_standard :: "int \<Rightarrow> bool" where
  "is_standard ty = (ty = COMMERCIAL \<or> ty = CARGO)"

definition other_class :: "int \<Rightarrow> int" where
  "other_class ty = (if ty = COMMERCIAL then CARGO else COMMERCIAL)"

definition waiting_of_class :: "runway \<Rightarrow> int \<Rightarrow> int" where
  "waiting_of_class g ty =
     (if ty = COMMERCIAL then waiting_commercial g
      else if ty = CARGO then waiting_cargo g
      else waiting_emergency g)"

definition opposite_direction :: "int \<Rightarrow> int" where
  "opposite_direction d = (if d = NORTH then SOUTH else NORTH)"

definition waiting_for_direction :: "runway \<Rightarrow> int \<Rightarrow> int" where
  "waiting_for_direction g d = (if d = NORTH then waiting_north g else waiting_south g)"

definition check_capacity :: "runway \<Rightarrow> int \<Rightarrow> int \<Rightarrow> bool \<Rightarrow> bool" where
  "check_capacity g ty d esc = (aircraft_on_runway g < 2)"

definition check_break_gate :: "runway \<Rightarrow> int \<Rightarrow> int \<Rightarrow> bool \<Rightarrow> bool" where
  "check_break_gate g ty d esc = (aircraft_since_break g < 8)"

definition check_direction :: "runway \<Rightarrow> int \<Rightarrow> int \<Rightarrow> bool \<Rightarrow> bool" where
  "check_direction g ty d esc = (is_standard ty \<longrightarrow> d = current_direction g)"

definition check_segregation :: "runway \<Rightarrow> int \<Rightarrow> int \<Rightarrow> bool \<Rightarrow> bool" where
  "check_segregation g ty d esc =
     (\<not> (ty = COMMERCIAL \<and> cargo_on_runway g > 0) \<and>
      \<not> (ty = CARGO \<and> commercial_on_runway g > 0))"

definition check_escalation :: "runway \<Rightarrow> int \<Rightarrow> int \<Rightarrow> bool \<Rightarrow> bool" where
  "check_escalation g ty d esc = (\<not> (\<not> esc \<and> fuel_emergency_waiting g > 0))"

definition check_emergency_first :: "runway \<Rightarrow> int \<Rightarrow> int \<Rightarrow> bool \<Rightarrow> bool" where
  "check_emergency_first g ty d esc = (\<not> (ty \<noteq> EMERGENCY \<and> waiting_emergency g > 0))"

definition check_fairness :: "runway \<Rightarrow> int \<Rightarrow> int \<Rightarrow> bool \<Rightarrow> bool" where
  "check_fairness g ty d esc =
     (\<not> (is_standard ty \<and> regular_type_count g \<ge> 4 \<and> last_regular_type g = ty
         \<and> waiting_of_class g (other_class ty) > 0))"

definition check_direction_yield :: "runway \<Rightarrow> int \<Rightarrow> int \<Rightarrow> bool \<Rightarrow> bool" where
  "check_direction_yield g ty d esc =
     (\<not> (d = current_direction g \<and> consecutive_direction g \<ge> 3
         \<and> waiting_for_direction g (opposite_direction (current_direction g)) > 0))"

definition admission_checks :: "(runway \<Rightarrow> int \<Rightarrow> int \<Rightarrow> bool \<Rightarrow> bool) list" where
  "admission_checks =
     [check_capacity, check_break_gate, check_direction, check_segregation,
      check_escalation, check_emergency_first, check_fairness, check_direction_yield]"

text \<open>
  The checks are tried in their order and the first one that fails denies; a request
  that no check denies is admitted.
\<close>

fun first_denial ::
  "(runway \<Rightarrow> int \<Rightarrow> int \<Rightarrow> bool \<Rightarrow> bool) list \<Rightarrow> runway \<Rightarrow> int \<Rightarrow> int \<Rightarrow> bool \<Rightarrow> nat \<Rightarrow> nat option"
where
  "first_denial [] g ty d esc k = None"
| "first_denial (c # cs) g ty d esc k =
     (if c g ty d esc then first_denial cs g ty d esc (Suc k) else Some k)"

definition can_admit :: "runway \<Rightarrow> int \<Rightarrow> int \<Rightarrow> bool \<Rightarrow> bool" where
  "can_admit g ty d esc =
     (case first_denial admission_checks g ty d esc 1 of None \<Rightarrow> True | Some k \<Rightarrow> False)"

definition valid_direction :: "runway \<Rightarrow> bool" where
  "valid_direction g = (current_direction g = NORTH \<or> current_direction g = SOUTH)"

section \<open>The requester protocol: \<open>commercial_enter\<close>, \<open>cargo_enter\<close>, \<open>emergency_enter\<close>\<close>

text \<open>
  Where an aircraft thread stands: not yet created, created (its arrival timestamp taken,
  line 646, the mutex not yet acquired), blocked in \<open>pthread_cond_timedwait\<close> inside its
  enter function, returned from the enter function (on the runway), returned from its
  leave function.
\<close>

datatype phase = NotStarted | Started | Waiting | OnRunway | Departed

text \<open>
  A thread is its \<open>aircraft_info\<close>, its phase and the local variable \<open>fuel_emergency\<close> of
  its enter function.
\<close>

record thread = aircraft_info +
  phase :: phase
  fuel_emergency :: int

text \<open>
  The cast \<open>(int)\<close> of a \<open>time_t\<close> difference (lines 387, 461, 527): the value is
  reduced to the 32 bits of an \<open>int\<close>, read as a signed number. Clock values are
  \<open>time_t\<close>, wider than \<open>int\<close>, and are modelled as \<open>int\<close>.
\<close>

definition int_cast :: "int \<Rightarrow> int" where
  "int_cast x = (x + 2147483648) mod 4294967296 - 2147483648"

text \<open>The escalation test at the head of each loop pass (lines 386--396, 460--470, 526--536).\<close>

definition check_fuel :: "int \<Rightarrow> thread \<Rightarrow> runway \<Rightarrow> thread \<times> runway" where
  "check_fuel now th g =
     (let waited = int_cast (now - arrival_timestamp th) in
      if fuel_emergency th = 0 \<and> waited \<ge> fuel_reserve th
      then (th\<lparr>fuel_emergency := 1\<rparr>,
            g\<lparr>fuel_emergency_waiting := fuel_emergency_waiting g + 1\<rparr>)
      else (th, g))"

text \<open>The updates of the admission branch (lines 406--428, 474--496, 550--560).\<close>

definition commercial_admit :: "runway \<Rightarrow> int \<Rightarrow> runway" where
  "commercial_admit g fe =
     (let g1 = g\<lparr>waiting_commercial := waiting_commercial g - 1,
                 waiting_north := waiting_north g - 1\<rparr>;
          g2 = (if fe \<noteq> 0
                then g1\<lparr>fuel_emergency_waiting := fuel_emergency_waiting g1 - 1\<rparr> else g1);
          g3 = g2\<lparr>aircraft_on_runway := aircraft_on_runway g2 + 1,
                  commercial_on_runway := commercial_on_runway g2 + 1,
                  aircraft_since_break := aircraft_since_break g2 + 1,
                  consecutive_direction := consecutive_direction g2 + 1\<rparr>
      in if last_regular_type g3 = COMMERCIAL
         then g3\<lparr>regular_type_count := regular_type_count g3 + 1\<rparr>
         else g3\<lparr>last_regular_type := COMMERCIAL, regular_type_count := 1\<rparr>)"

definition cargo_admit :: "runway \<Rightarrow> int \<Rightarrow> runway" where
  "cargo_admit g fe =
     (let g1 = g\<lparr>waiting_cargo := waiting_cargo g - 1,
                 waiting_south := waiting_south g - 1\<rparr>;
          g2 = (if fe \<noteq> 0
                then g1\<lparr>fuel_emergency_waiting := fuel_emergency_waiting g1 - 1\<rparr> else g1);
          g3 = g2\<lparr>aircraft_on_runway := aircraft_on_runway g2 + 1,
                  cargo_on_runway := cargo_on_runway g2 + 1,
                  aircraft_since_break := aircraft_since_break g2 + 1,
                  consecutive_direction := consecutive_direction g2 + 1\<rparr>
      in if last_regular_type g3 = CARGO
         then g3\<lparr>regular_type_count := regular_type_count g3 + 1\<rparr>
         else g3\<lparr>last_regular_type := CARGO, regular_type_count := 1\<rparr>)"

definition emergency_admit :: "runway \<Rightarrow> int \<Rightarrow> runway" where
  "emergency_admit g fe =
     (let g1 = g\<lparr>waiting_emergency := waiting_emergency g - 1\<rparr>;
          g2 = (if fe \<noteq> 0
                then g1\<lparr>fuel_emergency_waiting := fuel_emergency_waiting g1 - 1\<rparr> else g1)
      in g2\<lparr>aircraft_on_runway := aircraft_on_runway g2 + 1,
             emergency_on_runway := emergency_on_runway g2 + 1,
             aircraft_since_break := aircraft_since_break g2 + 1,
             consecutive_direction := consecutive_direction g2 + 1\<rparr>)"

text \<open>
  One pass of the \<open>while (1)\<close> body, run with the mutex held: the function returns (phase
  \<open>OnRunway\<close>) or blocks in \<open>pthread_cond_timedwait\<close>, which releases the mutex (phase
  \<open>Waiting\<close>). The argument \<open>now\<close> is what \<open>time(NULL)\<close> returns in this pass.
\<close>

definition commercial_enter_pass :: "int \<Rightarrow> thread \<Rightarrow> runway \<Rightarrow> thread \<times> runway" where
  "commercial_enter_pass now th g =
     (let (th1, g1) = check_fuel now th g in
      if can_enter_common g1 th1 NORTH (fuel_emergency th1) \<noteq> 0
      then (th1\<lparr>phase := OnRunway\<rparr>, commercial_admit g1 (fuel_emergency th1))
      else (th1\<lparr>phase := Waiting\<rparr>, g1))"

definition cargo_enter_pass :: "int \<Rightarrow> thread \<Rightarrow> runway \<Rightarrow> thread \<times> runway" where
  "cargo_enter_pass now th g =
     (let (th1, g1) = check_fuel now th g in
      if can_enter_common g1 th1 SOUTH (fuel_emergency th1) \<noteq> 0
      then (th1\<lparr>phase := OnRunway\<rparr>, cargo_admit g1 (fuel_emergency th1))
      else (th1\<lparr>phase := Waiting\<rparr>, g1))"

definition emergency_enter_pass :: "int \<Rightarrow> thread \<Rightarrow> runway \<Rightarrow> thread \<times> runway" where
  "emergency_enter_pass now th g =
     (let (th1, g1) = check_fuel now th g;
          desired_direction = current_direction g1 in
      if can_enter_common g1 th1 desired_direction (fuel_emergency th1) \<noteq> 0
      then (th1\<lparr>phase := OnRunway\<rparr>, emergency_admit g1 (fuel_emergency th1))
      else (th1\<lparr>phase := Waiting\<rparr>, g1))"

text \<open>
  The call of the enter function up to its first return or block: the mutex is taken, the
  waiting counters are incremented and the first pass runs in the same critical section.
\<close>

definition commercial_enter :: "int \<Rightarrow> thread \<Rightarrow> runway \<Rightarrow> thread \<times> runway" where
  "commercial_enter now th g =
     commercial_enter_pass now (th\<lparr>fuel_emergency := 0\<rparr>)
       (g\<lparr>waiting_commercial := waiting_commercial g + 1,
          waiting_north := waiting_north g + 1\<rparr>)"

definition cargo_enter :: "int \<Rightarrow> thread \<Rightarrow> runway \<Rightarrow> thread \<times> runway" where
  "cargo_enter now th g =
     cargo_enter_pass now (th\<lparr>fuel_emergency := 0\<rparr>)
       (g\<lparr>waiting_cargo := waiting_cargo g + 1,
          waiting_south := waiting_south g + 1\<rparr>)"

definition emergency_enter :: "int \<Rightarrow> thread \<Rightarrow> runway \<Rightarrow> thread \<times> runway" where
  "emergency_enter now th g =
     emergency_enter_pass now (th\<lparr>fuel_emergency := 0\<rparr>)
       (g\<lparr>waiting_emergency := waiting_emergency g + 1\<rparr>)"

section \<open>The release protocol (lines 585--635)\<close>

datatype error = Not_enabled | Assertion_failed

definition commercial_leave :: "runway \<Rightarrow> error + runway" where
  "commercial_leave g =
     (let g1 = g\<lparr>aircraft_on_runway := aircraft_on_runway g - 1,
                 commercial_on_runway := commercial_on_runway g - 1\<rparr>
      in if aircraft_on_runway g1 \<ge> 0 \<and> commercial_on_runway g1 \<ge> 0
         then Inr g1 else Inl Assertion_failed)"

definition cargo_leave :: "runway \<Rightarrow> error + runway" where
  "cargo_leave g =
     (let g1 = g\<lparr>aircraft_on_runway := aircraft_on_runway g - 1,
                 cargo_on_runway := cargo_on_runway g - 1\<rparr>
      in if aircraft_on_runway g1 \<ge> 0 \<and> cargo_on_runway g1 \<ge> 0
         then Inr g1 else Inl Assertion_failed)"

definition emergency_leave :: "runway \<Rightarrow> error + runway" where
  "emergency_leave g =
     (let g1 = g\<lparr>aircraft_on_runway := aircraft_on_runway g - 1,
                 emergency_on_runway := emergency_on_runway g - 1\<rparr>
      in if aircraft_on_runway g1 \<ge> 0 \<and> emergency_on_runway g1 \<ge> 0
         then Inr g1 else Inl Assertion_failed)"

text \<open>
  \<open>main\<close> picks the thread function by the aircraft type (lines 895--912): 0 runs the
  commercial functions, 1 the cargo ones, every other value the emergency ones.
\<close>

definition aircraft_enter :: "int \<Rightarrow> thread \<Rightarrow> runway \<Rightarrow> thread \<times> runway" where
  "aircraft_enter now th g =
     (if aircraft_type th = COMMERCIAL then commercial_enter now th g
      else if aircraft_type th = CARGO then cargo_enter now th g
      else emergency_enter now th g)"

definition aircraft_enter_pass :: "int \<Rightarrow> thread \<Rightarrow> runway \<Rightarrow> thread \<times> runway" where
  "aircraft_enter_pass now th g =
     (if aircraft_type th = COMMERCIAL then commercial_enter_pass now th g
      else if aircraft_type th = CARGO then cargo_enter_pass now th g
      else emergency_enter_pass now th g)"

definition aircraft_leave :: "thread \<Rightarrow> runway \<Rightarrow> error + runway" where
  "aircraft_leave th g =
     (if aircraft_type th = COMMERCIAL then commercial_leave g
      else if aircraft_type th = CARGO then cargo_leave g
      else emergency_leave g)"

section \<open>The controller (lines 281--366)\<close>

text \<open>
  \<open>take_break\<close> sleeps, asserts an empty runway and resets the break counter;
  \<open>switch_direction\<close> asserts an empty runway, sleeps, flips the direction and resets the
  run of the direction. Both run inside the controller's critical section.
\<close>

definition take_break :: "runway \<Rightarrow> error + runway" where
  "take_break g =
     (if aircraft_on_runway g = 0 then Inr (g\<lparr>aircraft_since_break := 0\<rparr>)
      else Inl Assertion_failed)"

definition switch_direction_assert :: "runway \<Rightarrow> bool" where
  "switch_direction_assert g = (aircraft_on_runway g = 0)"

definition switch_direction_finish :: "runway \<Rightarrow> runway" where
  "switch_direction_finish g =
     g\<lparr>current_direction := (if current_direction g = NORTH then SOUTH else NORTH),
       consecutive_direction := 0\<rparr>"

definition same_waiting :: "runway \<Rightarrow> int" where
  "same_waiting g =
     (if current_direction g = NORTH then waiting_north g
      else if current_direction g = SOUTH then waiting_south g
      else 0)"

datatype decision = Do_break | Do_switch | Do_nothing

definition controller_decision :: "runway \<Rightarrow> decision" where
  "controller_decision g =
     (if aircraft_since_break g \<ge> CONTROLLER_LIMIT \<and> aircraft_on_runway g = 0 then Do_break
      else if aircraft_on_runway g = 0 then
        (if opposite_waiting g > 0 \<and>
            (consecutive_direction g \<ge> DIRECTION_LIMIT \<or> same_waiting g = 0)
         then Do_switch else Do_nothing)
      else Do_nothing)"

section \<open>The whole program as a transition system\<close>

text \<open>
  Where the controller stands: between two critical sections, or inside one, asleep in
  \<open>take_break\<close> or in \<open>switch_direction\<close> with the mutex held. Every other critical
  section of the program runs to its unlock (or to its timed wait, which unlocks) without
  sleeping, and is one step here; so the mutex is held between two steps exactly when the
  controller is not \<open>CIdle\<close>.
\<close>

datatype cphase = CIdle | CBreak | CSwitch

text \<open>
  The condition variable \<open>cond_aircraft\<close> is modelled by the number of
  \<open>pthread_cond_broadcast\<close> calls made on it so far.
\<close>

record sys =
  globals :: runway
  threads :: "thread list"
  controller :: cphase
  cond_aircraft :: nat

text \<open>
  The steps: a thread is created and takes its arrival timestamp; a thread calls its
  enter function; a blocked thread returns from the timed wait (woken or timed out) and
  runs another pass; a thread calls its leave function; the controller runs one pass of
  its loop up to the unlock or up to the sleep of a maintenance action; the controller
  completes the maintenance action. The integer of a step is the clock value it reads.
\<close>

datatype event =
  Start nat int | Enter nat int | Retry nat int | Leave nat | Ctrl_poll | Ctrl_done

definition mutex_free :: "sys \<Rightarrow> bool" where
  "mutex_free s = (controller s = CIdle)"

definition thread_start :: "int \<Rightarrow> thread \<Rightarrow> thread" where
  "thread_start t th = th\<lparr>arrival_timestamp := t, phase := Started\<rparr>"

definition controller_poll :: "sys \<Rightarrow> error + sys" where
  "controller_poll s =
     (case controller_decision (globals s) of
        Do_break \<Rightarrow> Inr (s\<lparr>controller := CBreak\<rparr>)
      | Do_switch \<Rightarrow>
          (if switch_direction_assert (globals s) then Inr (s\<lparr>controller := CSwitch\<rparr>)
           else Inl Assertion_failed)
      | Do_nothing \<Rightarrow> Inr s)"

definition controller_done :: "sys \<Rightarrow> error + sys" where
  "controller_done s =
     (case controller s of
        CIdle \<Rightarrow> Inl Not_enabled
      | CBreak \<Rightarrow>
          (case take_break (globals s) of
             Inl e \<Rightarrow> Inl e
           | Inr g' \<Rightarrow> Inr (s\<lparr>globals := g', controller := CIdle,
                               cond_aircraft := Suc (cond_aircraft s)\<rparr>))
      | CSwitch \<Rightarrow>
          Inr (s\<lparr>globals := switch_direction_finish (globals s), controller := CIdle,
                 cond_aircraft := Suc (cond_aircraft s)\<rparr>))"

fun step :: "event \<Rightarrow> sys \<Rightarrow> error + sys" where
  "step (Start i t) s =
     (if i < length (threads s) \<and> phase (threads s ! i) = NotStarted
      then Inr (s\<lparr>threads := (threads s)[i := thread_start t (threads s ! i)]\<rparr>)
      else Inl Not_enabled)"
| "step (Enter i now) s =
     (if i < length (threads s) \<and> phase (threads s ! i) = Started \<and> mutex_free s
      then (case aircraft_enter now (threads s ! i) (globals s) of
              (th', g') \<Rightarrow> Inr (s\<lparr>globals := g', threads := (threads s)[i := th']\<rparr>))
      else Inl Not_enabled)"
| "step (Retry i now) s =
     (if i < length (threads s) \<and> phase (threads s ! i) = Waiting \<and> mutex_free s
      then (case aircraft_enter_pass now (threads s ! i) (globals s) of
              (th', g') \<Rightarrow> Inr (s\<lparr>globals := g', threads := (threads s)[i := th']\<rparr>))
      else Inl Not_enabled)"
| "step (Leave i) s =
     (if i < length (threads s) \<and> phase (threads s ! i) = OnRunway \<and> mutex_free s
      then (case aircraft_leave (threads s ! i) (globals s) of
              Inl e \<Rightarrow> Inl e
            | Inr g' \<Rightarrow>
                Inr (s\<lparr>globals := g',
                       threads := (threads s)[i := (threads s ! i)\<lparr>phase := Departed\<rparr>],
                       cond_aircraft := Suc (cond_aircraft s)\<rparr>))
      else Inl Not_enabled)"
| "step Ctrl_poll s = (if mutex_free s then controller_poll s else Inl Not_enabled)"
| "step Ctrl_done s = controller_done s"

fun run :: "event list \<Rightarrow> sys \<Rightarrow> error + sys" where
  "run [] s = Inr s"
| "run (e # es) s = (case step e s of Inl x \<Rightarrow> Inl x | Inr s' \<Rightarrow> run es s')"

text \<open>The state \<open>initialize\<close> sets up (lines 218--233), with the threads \<open>main\<close> will create.\<close>

definition init_runway :: runway where
  "init_runway =
     \<lparr>waiting_commercial = 0, waiting_cargo = 0, waiting_emergency = 0,
      waiting_north = 0, waiting_south = 0, fuel_emergency_waiting = 0,
      last_regular_type = -1, regular_type_count = 0,
      aircraft_on_runway = 0, commercial_on_runway = 0, cargo_on_runway = 0,
      emergency_on_runway = 0, aircraft_since_break = 0,
      current_direction = NORTH, consecutive_direction = 0\<rparr>"

definition new_thread :: "nat \<times> aircraft_info \<Rightarrow> thread" where
  "new_thread p =
     (case p of (i, a) \<Rightarrow>
       \<lparr>arrival_time = arrival_time a, runway_time = runway_time a,
        aircraft_id = int i, aircraft_type = aircraft_type a,
        fuel_reserve = fuel_reserve a, arrival_timestamp = arrival_timestamp a,
        phase = NotStarted, fuel_emergency = 0\<rparr>)"

definition init_sys :: "aircraft_info list \<Rightarrow> sys" where
  "init_sys ai =
     \<lparr>globals = init_runway, threads = map new_thread (enumerate 0 ai),
      controller = CIdle, cond_aircraft = 0\<rparr>"

text \<open>
  Which class a step admits, if any: the thread of the step has returned from its enter
  function.
\<close>

definition admitted :: "event \<Rightarrow> sys \<Rightarrow> sys \<Rightarrow> int option" where
  "admitted e s s' =
     (case e of
        Enter i now \<Rightarrow>
          (if phase (threads s' ! i) = OnRunway then Some (aircraft_type (threads s ! i))
           else None)
      | Retry i now \<Rightarrow>
          (if phase (threads s' ! i) = OnRunway then Some (aircraft_type (threads s ! i))
           else None)
      | _ \<Rightarrow> None)"

text \<open>
  An execution together with the record of the classes it admitted, the latest first.
  The record is kept beside the program state; no step reads it.
\<close>

fun run_log :: "event list \<Rightarrow> sys \<times> int list \<Rightarrow> error + sys \<times> int list" where
  "run_log [] p = Inr p"
| "run_log (e # es) (s, log) =
     (case step e s of
        Inl x \<Rightarrow> Inl x
      | Inr s' \<Rightarrow>
          run_log es (s', (case admitted e s s' of None \<Rightarrow> log | Some c \<Rightarrow> c # log)))"

text \<open>
  The number of admissions of class \<open>c\<close> at the head of the record, emergency admissions
  left out: the length of the run of \<open>c\<close> that the next admission would extend.
\<close>

definition standard_run :: "int \<Rightarrow> int list \<Rightarrow> nat" where
  "standard_run c log =
     length (takeWhile (\<lambda>x. x = c) (filter (\<lambda>x. x = COMMERCIAL \<or> x = CARGO) log))"

text \<open>
  Counting threads: those on the runway and those blocked in a timed wait, by the thread
  function \<open>main\<close> gave them (type 0 commercial, type 1 cargo, any other type
  emergency).
\<close>

definition count_where :: "(thread \<Rightarrow> bool) \<Rightarrow> thread list \<Rightarrow> int" where
  "count_where P ts = int (length (filter P ts))"

definition on_runway_of :: "int \<Rightarrow> thread \<Rightarrow> bool" where
  "on_runway_of c th =
     (phase th = OnRunway \<and>
      (if c = COMMERCIAL \<or> c = CARGO then aircraft_type th = c
       else aircraft_type th \<noteq> COMMERCIAL \<and> aircraft_type th \<noteq> CARGO))"

definition waiting_as :: "int \<Rightarrow> thread \<Rightarrow> bool" where
  "waiting_as c th =
     (phase th = Waiting \<and>
      (if c = COMMERCIAL \<or> c = CARGO then aircraft_type th = c
       else aircraft_type th \<noteq> COMMERCIAL \<and> aircraft_type th \<noteq> CARGO))"

section \<open>Start-up: \<open>initialize\<close> and \<open>main\<close> (lines 216--276, 853--935)\<close>

text \<open>
  The input file is the sequence of buffers \<open>fgets\<close> returns, each with what
  \<open>sscanf(line, "%d%d%d", ...)\<close> reads from it when it reads three integers; \<open>rand k\<close> is
  the result of the \<open>k\<close>-th call of \<open>rand()\<close>. The fields \<open>aircraft_id\<close> and
  \<open>arrival_timestamp\<close> are not written by \<open>initialize\<close>; they are written before they
  are read (lines 892 and 646) and stand as 0 here.
\<close>

type_synonym line = "string \<times> (int \<times> int \<times> int) option"

definition skipped :: "string \<Rightarrow> bool" where
  "skipped buf =
     (case buf of [] \<Rightarrow> False
      | c # cs \<Rightarrow> c = CHR ''#'' \<or> c = CHR 0x0A \<or> c = CHR 0x0D)"

fun read_aircraft :: "line list \<Rightarrow> (nat \<Rightarrow> nat) \<Rightarrow> aircraft_info list \<Rightarrow> aircraft_info list" where
  "read_aircraft [] rand ai = ai"
| "read_aircraft (l # ls) rand ai =
     (if length ai < MAX_AIRCRAFT then
        (if skipped (fst l) then read_aircraft ls rand ai
         else (case snd l of
                 None \<Rightarrow> read_aircraft ls rand ai
               | Some (ty, at, rt) \<Rightarrow>
                   read_aircraft ls rand
                     (ai @ [\<lparr>arrival_time = at, runway_time = rt, aircraft_id = 0,
                             aircraft_type = ty,
                             fuel_reserve =
                               FUEL_MIN + int (rand (length ai)) mod (FUEL_MAX - FUEL_MIN + 1),
                             arrival_timestamp = 0\<rparr>])))
      else ai)"

text \<open>\<open>initialize\<close>: the file that cannot be opened ends the process with status 1.\<close>

definition initialize :: "line list option \<Rightarrow> (nat \<Rightarrow> nat) \<Rightarrow> int + aircraft_info list" where
  "initialize file rand =
     (case file of None \<Rightarrow> Inl 1 | Some ls \<Rightarrow> Inr (read_aircraft ls rand []))"

text \<open>
  \<open>main\<close>: its result is the exit status and whether an aircraft or controller thread was
  created before the process ended. \<open>einval\<close> is the value of the macro \<open>EINVAL\<close> of
  \<open>errno.h\<close>; the last argument is how the concurrent part ends when it ends.
\<close>

datatype sim_outcome = Controller_create_failed | Aircraft_create_failed | All_joined

definition main ::
  "int \<Rightarrow> int \<Rightarrow> line list option \<Rightarrow> (nat \<Rightarrow> nat) \<Rightarrow> sim_outcome \<Rightarrow> int \<times> bool" where
  "main einval nargs file rand outcome =
     (if nargs \<noteq> 2 then (einval, False)
      else (case initialize file rand of
              Inl status \<Rightarrow> (status, False)
            | Inr ai \<Rightarrow>
                (let num_aircraft = int (length ai) in
                 if num_aircraft > int MAX_AIRCRAFT \<or> num_aircraft \<le> 0 then (1, False)
                 else (case outcome of
                         Controller_create_failed \<Rightarrow> (1, False)
                       | Aircraft_create_failed \<Rightarrow> (1, True)
                       | All_joined \<Rightarrow> (0, True)))))"

text \<open>A random source for closed examples: every call returns 0.\<close>

definition rand_zero :: "nat \<Rightarrow> nat" where
  "rand_zero k = 0"

section \<open>Invariants of the shared state\<close>

text \<open>What holds of the shared variables alone in every state the program reaches.\<close>

definition runway_inv :: "runway \<Rightarrow> bool" where
  "runway_inv g =
     (commercial_on_runway g + cargo_on_runway g + emergency_on_runway g = aircraft_on_runway g
      \<and> aircraft_on_runway g \<le> 2
      \<and> \<not> (commercial_on_runway g > 0 \<and> cargo_on_runway g > 0)
      \<and> 0 \<le> aircraft_since_break g \<and> aircraft_since_break g \<le> 8
      \<and> valid_direction g
      \<and> waiting_north g = waiting_commercial g
      \<and> waiting_south g = waiting_cargo g)"

text \<open>The counters count the threads: those on the runway and those blocked, per class.\<close>

definition threads_inv :: "sys \<Rightarrow> bool" where
  "threads_inv s =
     (commercial_on_runway (globals s) = count_where (on_runway_of COMMERCIAL) (threads s)
      \<and> cargo_on_runway (globals s) = count_where (on_runway_of CARGO) (threads s)
      \<and> emergency_on_runway (globals s) = count_where (on_runway_of EMERGENCY) (threads s)
      \<and> waiting_commercial (globals s) = count_where (waiting_as COMMERCIAL) (threads s)
      \<and> waiting_cargo (globals s) = count_where (waiting_as CARGO) (threads s)
      \<and> waiting_emergency (globals s) = count_where (waiting_as EMERGENCY) (threads s))"

text \<open>While the controller sleeps in a maintenance action the runway is empty.\<close>

definition maintenance_inv :: "sys \<Rightarrow> bool" where
  "maintenance_inv s = (controller s \<noteq> CIdle \<longrightarrow> aircraft_on_runway (globals s) = 0)"

definition sys_inv :: "sys \<Rightarrow> bool" where
  "sys_inv s = (runway_inv (globals s) \<and> threads_inv s \<and> maintenance_inv s)"

text \<open>
  The increments at the head of the three enter functions (lines 381--382, 455--456,
  522), by the class of the calling thread.
\<close>

definition register :: "thread \<Rightarrow> runway \<Rightarrow> runway" where
  "register th g =
     (if aircraft_type th = COMMERCIAL
      then g\<lparr>waiting_commercial := waiting_commercial g + 1, waiting_north := waiting_north g + 1\<rparr>
      else if aircraft_type th = CARGO
      then g\<lparr>waiting_cargo := waiting_cargo g + 1, waiting_south := waiting_south g + 1\<rparr>
      else g\<lparr>waiting_emergency := waiting_emergency g + 1\<rparr>)"

text \<open>
  The fairness counters against the record of admissions: with no standard admission yet
  they have their initial values; otherwise \<open>last_regular_type\<close> is the latest standard
  class admitted and \<open>regular_type_count\<close> the length of its run.
\<close>

definition fairness_inv :: "runway \<Rightarrow> int list \<Rightarrow> bool" where
  "fairness_inv g log =
     (case filter (\<lambda>x. x = COMMERCIAL \<or> x = CARGO) log of
        [] \<Rightarrow> last_regular_type g = -1 \<and> regular_type_count g = 0
      | c # cs \<Rightarrow> last_regular_type g = c \<and> regular_type_count g = int (standard_run c log))"

section \<open>Example runs\<close>

text \<open>
  Concrete fleets, executions and the states they reach, used to exercise the theorems
  below. \<open>plane\<close> is a record as \<open>initialize\<close> leaves it, \<open>pilot\<close> a thread at a given
  point of its life.
\<close>

definition plane :: "int \<Rightarrow> int \<Rightarrow> aircraft_info" where
  "plane ty fuel =
     \<lparr>arrival_time = 0, runway_time = 5, aircraft_id = 0, aircraft_type = ty,
      fuel_reserve = fuel, arrival_timestamp = 0\<rparr>"

definition pilot :: "nat \<Rightarrow> int \<Rightarrow> int \<Rightarrow> int \<Rightarrow> phase \<Rightarrow> int \<Rightarrow> thread" where
  "pilot i ty fuel ts ph fe =
     \<lparr>arrival_time = 0, runway_time = 5, aircraft_id = int i, aircraft_type = ty,
      fuel_reserve = fuel, arrival_timestamp = ts, phase = ph, fuel_emergency = fe\<rparr>"

definition stall_fleet :: "aircraft_info list" where
  "stall_fleet =
     [plane COMMERCIAL 40, plane COMMERCIAL 40, plane COMMERCIAL 20, plane EMERGENCY 60]"

definition one_up_trace :: "event list" where
  "one_up_trace = [Start 0 0, Enter 0 0, Start 1 0]"

definition one_up_state :: sys where
  "one_up_state =
     \<lparr>globals =
        \<lparr>waiting_commercial = 0, waiting_cargo = 0, waiting_emergency = 0,
         waiting_north = 0, waiting_south = 0, fuel_emergency_waiting = 0,
         last_regular_type = 0, regular_type_count = 1,
         aircraft_on_runway = 1, commercial_on_runway = 1,
         cargo_on_runway = 0, emergency_on_runway = 0,
         aircraft_since_break = 1, current_direction = 0, consecutive_direction = 1\<rparr>,
      threads =
        [pilot 0 COMMERCIAL 40 0 OnRunway 0, pilot 1 COMMERCIAL 40 0 Started 0,
         pilot 2 COMMERCIAL 20 0 NotStarted 0, pilot 3 EMERGENCY 60 0 NotStarted 0],
      controller = CIdle, cond_aircraft = 0\<rparr>"

definition two_up_state :: sys where
  "two_up_state =
     \<lparr>globals =
        \<lparr>waiting_commercial = 0, waiting_cargo = 0, waiting_emergency = 0,
         waiting_north = 0, waiting_south = 0, fuel_emergency_waiting = 0,
         last_regular_type = 0, regular_type_count = 2,
         aircraft_on_runway = 2, commercial_on_runway = 2,
         cargo_on_runway = 0, emergency_on_runway = 0,
         aircraft_since_break = 2, current_direction = 0, consecutive_direction = 2\<rparr>,
      threads =
        [pilot 0 COMMERCIAL 40 0 OnRunway 0, pilot 1 COMMERCIAL 40 0 OnRunway 0,
         pilot 2 COMMERCIAL 20 0 NotStarted 0, pilot 3 EMERGENCY 60 0 NotStarted 0],
      controller = CIdle, cond_aircraft = 0\<rparr>"

definition one_left_state :: sys where
  "one_left_state =
     \<lparr>globals =
        \<lparr>waiting_commercial = 0, waiting_cargo = 0, waiting_emergency = 0,
         waiting_north = 0, waiting_south = 0, fuel_emergency_waiting = 0,
         last_regular_type = 0, regular_type_count = 2,
         aircraft_on_runway = 1, commercial_on_runway = 1,
         cargo_on_runway = 0, emergency_on_runway = 0,
         aircraft_since_break = 2, current_direction = 0, consecutive_direction = 2\<rparr>,
      threads =
        [pilot 0 COMMERCIAL 40 0 Departed 0, pilot 1 COMMERCIAL 40 0 OnRunway 0,
         pilot 2 COMMERCIAL 20 0 NotStarted 0, pilot 3 EMERGENCY 60 0 NotStarted 0],
      controller = CIdle, cond_aircraft = 1\<rparr>"

definition stall_trace :: "event list" where
  "stall_trace =
     [Start 0 0, Enter 0 0, Start 1 0, Enter 1 0, Start 2 0, Enter 2 0,
      Start 3 15, Enter 3 15, Retry 2 20, Leave 0, Leave 1]"

definition stall_state :: sys where
  "stall_state =
     \<lparr>globals =
        \<lparr>waiting_commercial = 1, waiting_cargo = 0, waiting_emergency = 1,
         waiting_north = 1, waiting_south = 0, fuel_emergency_waiting = 1,
         last_regular_type = 0, regular_type_count = 2,
         aircraft_on_runway = 0, commercial_on_runway = 0,
         cargo_on_runway = 0, emergency_on_runway = 0,
         aircraft_since_break = 2, current_direction = 0, consecutive_direction = 2\<rparr>,
      threads =
        [pilot 0 COMMERCIAL 40 0 Departed 0, pilot 1 COMMERCIAL 40 0 Departed 0,
         pilot 2 COMMERCIAL 20 0 Waiting 1, pilot 3 EMERGENCY 60 15 Waiting 0],
      controller = CIdle, cond_aircraft = 2\<rparr>"

definition stall_released_state :: sys where
  "stall_released_state =
     \<lparr>globals =
        \<lparr>waiting_commercial = 1, waiting_cargo = 0, waiting_emergency = 0,
         waiting_north = 1, waiting_south = 0, fuel_emergency_waiting = 1,
         last_regular_type = 0, regular_type_count = 2,
         aircraft_on_runway = 1, commercial_on_runway = 0,
         cargo_on_runway = 0, emergency_on_runway = 1,
         aircraft_since_break = 3, current_direction = 0, consecutive_direction = 3\<rparr>,
      threads =
        [pilot 0 COMMERCIAL 40 0 Departed 0, pilot 1 COMMERCIAL 40 0 Departed 0,
         pilot 2 COMMERCIAL 20 0 Waiting 1, pilot 3 EMERGENCY 60 15 OnRunway 1],
      controller = CIdle, cond_aircraft = 2\<rparr>"

definition break_fleet :: "aircraft_info list" where
  "break_fleet = replicate 8 (plane COMMERCIAL 40)"

definition break_trace :: "event list" where
  "break_trace =
     [Start 0 0, Enter 0 0, Leave 0, Start 1 0, Enter 1 0, Leave 1,
      Start 2 0, Enter 2 0, Leave 2, Start 3 0, Enter 3 0, Leave 3,
      Start 4 0, Enter 4 0, Leave 4, Start 5 0, Enter 5 0, Leave 5,
      Start 6 0, Enter 6 0, Leave 6, Start 7 0, Enter 7 0, Leave 7, Ctrl_poll]"

definition break_state :: sys where
  "break_state =
     \<lparr>globals =
        \<lparr>waiting_commercial = 0, waiting_cargo = 0, waiting_emergency = 0,
         waiting_north = 0, waiting_south = 0, fuel_emergency_waiting = 0,
         last_regular_type = 0, regular_type_count = 8,
         aircraft_on_runway = 0, commercial_on_runway = 0,
         cargo_on_runway = 0, emergency_on_runway = 0,
         aircraft_since_break = 8, current_direction = 0, consecutive_direction = 8\<rparr>,
      threads =
        [pilot 0 COMMERCIAL 40 0 Departed 0, pilot 1 COMMERCIAL 40 0 Departed 0,
         pilot 2 COMMERCIAL 40 0 Departed 0, pilot 3 COMMERCIAL 40 0 Departed 0,
         pilot 4 COMMERCIAL 40 0 Departed 0, pilot 5 COMMERCIAL 40 0 Departed 0,
         pilot 6 COMMERCIAL 40 0 Departed 0, pilot 7 COMMERCIAL 40 0 Departed 0],
      controller = CBreak, cond_aircraft = 8\<rparr>"

definition break_done_state :: sys where
  "break_done_state =
     break_state\<lparr>globals := (globals break_state)\<lparr>aircraft_since_break := 0\<rparr>,
                 controller := CIdle, cond_aircraft := 9\<rparr>"

definition switch_fleet :: "aircraft_info list" where
  "switch_fleet = [plane CARGO 40]"

definition switch_trace :: "event list" where
  "switch_trace = [Start 0 0, Enter 0 0, Ctrl_poll]"

definition switch_state :: sys where
  "switch_state =
     \<lparr>globals =
        \<lparr>waiting_commercial = 0, waiting_cargo = 1, waiting_emergency = 0,
         waiting_north = 0, waiting_south = 1, fuel_emergency_waiting = 0,
         last_regular_type = - 1, regular_type_count = 0,
         aircraft_on_runway = 0, commercial_on_runway = 0,
         cargo_on_runway = 0, emergency_on_runway = 0,
         aircraft_since_break = 0, current_direction = 0, consecutive_direction = 0\<rparr>,
      threads = [pilot 0 CARGO 40 0 Waiting 0],
      controller = CSwitch, cond_aircraft = 0\<rparr>"

definition switch_done_state :: sys where
  "switch_done_state =
     switch_state\<lparr>globals := (globals switch_state)\<lparr>current_direction := 1\<rparr>,
                  controller := CIdle, cond_aircraft := 1\<rparr>"

definition fair_fleet :: "aircraft_info list" where
  "fair_fleet = replicate 5 (plane COMMERCIAL 40) @ [plane CARGO 40]"

definition fair_trace :: "event list" where
  "fair_trace =
     [Start 0 0, Enter 0 0, Leave 0, Start 1 0, Enter 1 0, Leave 1,
      Start 2 0, Enter 2 0, Leave 2, Start 3 0, Enter 3 0, Leave 3, Start 4 0]"

definition fair_state :: sys where
  "fair_state =
     \<lparr>globals =
        \<lparr>waiting_commercial = 0, waiting_cargo = 0, waiting_emergency = 0,
         waiting_north = 0, waiting_south = 0, fuel_emergency_waiting = 0,
         last_regular_type = 0, regular_type_count = 4,
         aircraft_on_runway = 0, commercial_on_runway = 0,
         cargo_on_runway = 0, emergency_on_runway = 0,
         aircraft_since_break = 4, current_direction = 0, consecutive_direction = 4\<rparr>,
      threads =
        [pilot 0 COMMERCIAL 40 0 Departed 0, pilot 1 COMMERCIAL 40 0 Departed 0,
         pilot 2 COMMERCIAL 40 0 Departed 0, pilot 3 COMMERCIAL 40 0 Departed 0,
         pilot 4 COMMERCIAL 40 0 Started 0, pilot 5 CARGO 40 0 NotStarted 0],
      controller = CIdle, cond_aircraft = 4\<rparr>"

definition fair_next_state :: sys where
  "fair_next_state =
     \<lparr>globals =
        \<lparr>waiting_commercial = 0, waiting_cargo = 0, waiting_emergency = 0,
         waiting_north = 0, waiting_south = 0, fuel_emergency_waiting = 0,
         last_regular_type = 0, regular_type_count = 5,
         aircraft_on_runway = 1, commercial_on_runway = 1,
         cargo_on_runway = 0, emergency_on_runway = 0,
         aircraft_since_break = 5, current_direction = 0, consecutive_direction = 5\<rparr>,
      threads =
        [pilot 0 COMMERCIAL 40 0 Departed 0, pilot 1 COMMERCIAL 40 0 Departed 0,
         pilot 2 COMMERCIAL 40 0 Departed 0, pilot 3 COMMERCIAL 40 0 Departed 0,
         pilot 4 COMMERCIAL 40 0 OnRunway 0, pilot 5 CARGO 40 0 NotStarted 0],
      controller = CIdle, cond_aircraft = 4\<rparr>"

section \<open>Unfolding rules\<close>

lemmas runway_consts =
  MAX_RUNWAY_CAPACITY_def CONTROLLER_LIMIT_def MAX_AIRCRAFT_def FUEL_MIN_def FUEL_MAX_def
  DIRECTION_LIMIT_def COMMERCIAL_def CARGO_def EMERGENCY_def NORTH_def SOUTH_def

lemmas check_defs =
  check_capacity_def check_break_gate_def check_direction_def check_segregation_def
  check_escalation_def check_emergency_first_def check_fairness_def
  check_direction_yield_def is_standard_def other_class_def waiting_of_class_def
  opposite_direction_def waiting_for_direction_def

lemmas step_defs =
  mutex_free_def aircraft_enter_def aircraft_enter_pass_def commercial_enter_def
  cargo_enter_def emergency_enter_def commercial_enter_pass_def cargo_enter_pass_def
  emergency_enter_pass_def check_fuel_def can_enter_common_def commercial_admit_def
  cargo_admit_def emergency_admit_def aircraft_leave_def commercial_leave_def
  cargo_leave_def emergency_leave_def opposite_waiting_def other_type_waiting_def
  controller_poll_def controller_done_def controller_decision_def take_break_def
  switch_direction_assert_def switch_direction_finish_def same_waiting_def thread_start_def
  Let_def

section \<open>What one pass of an enter function does\<close>

lemma can_enter_common_admits:
  "can_enter_common g ai d fe \<noteq> 0 \<longleftrightarrow>
     aircraft_on_runway g < 2 \<and> aircraft_since_break g < 8 \<and>
     (aircraft_type ai = 0 \<or> aircraft_type ai = 1 \<longrightarrow> d = current_direction g) \<and>
     \<not> (aircraft_type ai = 0 \<and> cargo_on_runway g > 0) \<and>
     \<not> (aircraft_type ai = 1 \<and> commercial_on_runway g > 0) \<and>
     \<not> (fuel_emergency_waiting g > 0 \<and> fe = 0) \<and>
     \<not> (aircraft_type ai \<noteq> 2 \<and> waiting_emergency g > 0) \<and>
     \<not> ((aircraft_type ai = 0 \<or> aircraft_type ai = 1) \<and> regular_type_count g \<ge> 4 \<and>
         last_regular_type g = aircraft_type ai \<and> other_type_waiting g (aircraft_type ai) > 0) \<and>
     \<not> (d = current_direction g \<and> consecutive_direction g \<ge> 3 \<and> opposite_waiting g > 0)"
  unfolding can_enter_common_def runway_consts by (simp only: split: if_split) auto

lemma can_enter_common_01:
  "can_enter_common g ai d fe = (if can_enter_common g ai d fe \<noteq> 0 then 1 else 0)"
  by (simp add: can_enter_common_def)

lemma can_admit_all:
  "can_admit g ty d esc \<longleftrightarrow>
     check_capacity g ty d esc \<and> check_break_gate g ty d esc \<and> check_direction g ty d esc \<and>
     check_segregation g ty d esc \<and> check_escalation g ty d esc \<and>
     check_emergency_first g ty d esc \<and> check_fairness g ty d esc \<and>
     check_direction_yield g ty d esc"
  by (simp add: can_admit_def admission_checks_def)

lemma int_cast_in_range:
  "- 2147483648 \<le> x \<Longrightarrow> x < 2147483648 \<Longrightarrow> int_cast x = x"
  by (simp add: int_cast_def)

lemma check_fuel_fields:
  "aircraft_type (fst (check_fuel now th g)) = aircraft_type th"
  "phase (fst (check_fuel now th g)) = phase th"
  "waiting_commercial (snd (check_fuel now th g)) = waiting_commercial g"
  "waiting_cargo (snd (check_fuel now th g)) = waiting_cargo g"
  "waiting_emergency (snd (check_fuel now th g)) = waiting_emergency g"
  "waiting_north (snd (check_fuel now th g)) = waiting_north g"
  "waiting_south (snd (check_fuel now th g)) = waiting_south g"
  "last_regular_type (snd (check_fuel now th g)) = last_regular_type g"
  "regular_type_count (snd (check_fuel now th g)) = regular_type_count g"
  "aircraft_on_runway (snd (check_fuel now th g)) = aircraft_on_runway g"
  "commercial_on_runway (snd (check_fuel now th g)) = commercial_on_runway g"
  "cargo_on_runway (snd (check_fuel now th g)) = cargo_on_runway g"
  "emergency_on_runway (snd (check_fuel now th g)) = emergency_on_runway g"
  "aircraft_since_break (snd (check_fuel now th g)) = aircraft_since_break g"
  "current_direction (snd (check_fuel now th g)) = current_direction g"
  "consecutive_direction (snd (check_fuel now th g)) = consecutive_direction g"
  by (simp_all add: check_fuel_def Let_def)

lemma check_fuel_rest:
  "snd (check_fuel now th g) =
     g\<lparr>fuel_emergency_waiting := fuel_emergency_waiting (snd (check_fuel now th g))\<rparr>"
  by (simp add: check_fuel_def Let_def)

lemma commercial_admit_fields:
  "waiting_commercial (commercial_admit g fe) = waiting_commercial g - 1"
  "waiting_cargo (commercial_admit g fe) = waiting_cargo g"
  "waiting_emergency (commercial_admit g fe) = waiting_emergency g"
  "waiting_north (commercial_admit g fe) = waiting_north g - 1"
  "waiting_south (commercial_admit g fe) = waiting_south g"
  "last_regular_type (commercial_admit g fe) = COMMERCIAL"
  "regular_type_count (commercial_admit g fe) =
     (if last_regular_type g = COMMERCIAL then regular_type_count g + 1 else 1)"
  "aircraft_on_runway (commercial_admit g fe) = aircraft_on_runway g + 1"
  "commercial_on_runway (commercial_admit g fe) = commercial_on_runway g + 1"
  "cargo_on_runway (commercial_admit g fe) = cargo_on_runway g"
  "emergency_on_runway (commercial_admit g fe) = emergency_on_runway g"
  "aircraft_since_break (commercial_admit g fe) = aircraft_since_break g + 1"
  "current_direction (commercial_admit g fe) = current_direction g"
  "consecutive_direction (commercial_admit g fe) = consecutive_direction g + 1"
  by (simp_all add: commercial_admit_def Let_def)

lemma cargo_admit_fields:
  "waiting_commercial (cargo_admit g fe) = waiting_commercial g"
  "waiting_cargo (cargo_admit g fe) = waiting_cargo g - 1"
  "waiting_emergency (cargo_admit g fe) = waiting_emergency g"
  "waiting_north (cargo_admit g fe) = waiting_north g"
  "waiting_south (cargo_admit g fe) = waiting_south g - 1"
  "last_regular_type (cargo_admit g fe) = CARGO"
  "regular_type_count (cargo_admit g fe) =
     (if last_regular_type g = CARGO then regular_type_count g + 1 else 1)"
  "aircraft_on_runway (cargo_admit g fe) = aircraft_on_runway g + 1"
  "commercial_on_runway (cargo_admit g fe) = commercial_on_runway g"
  "cargo_on_runway (cargo_admit g fe) = cargo_on_runway g + 1"
  "emergency_on_runway (cargo_admit g fe) = emergency_on_runway g"
  "aircraft_since_break (cargo_admit g fe) = aircraft_since_break g + 1"
  "current_direction (cargo_admit g fe) = current_direction g"
  "consecutive_direction (cargo_admit g fe) = consecutive_direction g + 1"
  by (simp_all add: cargo_admit_def Let_def)

lemma emergency_admit_fields:
  "waiting_commercial (emergency_admit g fe) = waiting_commercial g"
  "waiting_cargo (emergency_admit g fe) = waiting_cargo g"
  "waiting_emergency (emergency_admit g fe) = waiting_emergency g - 1"
  "waiting_north (emergency_admit g fe) = waiting_north g"
  "waiting_south (emergency_admit g fe) = waiting_south g"
  "last_regular_type (emergency_admit g fe) = last_regular_type g"
  "regular_type_count (emergency_admit g fe) = regular_type_count g"
  "aircraft_on_runway (emergency_admit g fe) = aircraft_on_runway g + 1"
  "commercial_on_runway (emergency_admit g fe) = commercial_on_runway g"
  "cargo_on_runway (emergency_admit g fe) = cargo_on_runway g"
  "emergency_on_runway (emergency_admit g fe) = emergency_on_runway g + 1"
  "aircraft_since_break (emergency_admit g fe) = aircraft_since_break g + 1"
  "current_direction (emergency_admit g fe) = current_direction g"
  "consecutive_direction (emergency_admit g fe) = consecutive_direction g + 1"
  by (simp_all add: emergency_admit_def Let_def)

lemmas field_simps_runway =
  check_fuel_fields commercial_admit_fields cargo_admit_fields emergency_admit_fields

lemmas pass_unfold =
  aircraft_enter_pass_def commercial_enter_pass_def cargo_enter_pass_def
  emergency_enter_pass_def case_prod_beta Let_def

lemma pass_thread:
  assumes "aircraft_enter_pass now th g = (th', g')"
  shows "aircraft_type th' = aircraft_type th"
    and "phase th' = OnRunway \<or> phase th' = Waiting"
  using assms by (auto simp: pass_unfold field_simps_runway split: if_splits)

lemma pass_guard:
  assumes "aircraft_enter_pass now th g = (th', g')" and "phase th' = OnRunway"
  shows "aircraft_on_runway g < 2" and "aircraft_since_break g < 8"
    and "aircraft_type th = 0 \<Longrightarrow> cargo_on_runway g \<le> 0 \<and> current_direction g = 0"
    and "aircraft_type th = 1 \<Longrightarrow> commercial_on_runway g \<le> 0 \<and> current_direction g = 1"
    and "aircraft_type th = 0 \<Longrightarrow> regular_type_count g \<ge> 4 \<Longrightarrow> last_regular_type g = 0
           \<Longrightarrow> waiting_cargo g \<le> 0"
    and "aircraft_type th = 1 \<Longrightarrow> regular_type_count g \<ge> 4 \<Longrightarrow> last_regular_type g = 1
           \<Longrightarrow> waiting_commercial g \<le> 0"
  using assms
  by (auto simp: pass_unfold field_simps_runway can_enter_common_admits other_type_waiting_def
       runway_consts split: if_splits)

lemma pass_counters:
  assumes "aircraft_enter_pass now th g = (th', g')"
  shows "aircraft_on_runway g' = aircraft_on_runway g + (if phase th' = OnRunway then 1 else 0)"
    and "aircraft_since_break g' = aircraft_since_break g + (if phase th' = OnRunway then 1 else 0)"
    and "consecutive_direction g' = consecutive_direction g + (if phase th' = OnRunway then 1 else 0)"
    and "current_direction g' = current_direction g"
    and "commercial_on_runway g' = commercial_on_runway g +
           (if phase th' = OnRunway \<and> aircraft_type th = 0 then 1 else 0)"
    and "cargo_on_runway g' = cargo_on_runway g +
           (if phase th' = OnRunway \<and> aircraft_type th = 1 then 1 else 0)"
    and "emergency_on_runway g' = emergency_on_runway g +
           (if phase th' = OnRunway \<and> aircraft_type th \<noteq> 0 \<and> aircraft_type th \<noteq> 1 then 1 else 0)"
    and "waiting_commercial g' = waiting_commercial g -
           (if phase th' = OnRunway \<and> aircraft_type th = 0 then 1 else 0)"
    and "waiting_north g' = waiting_north g -
           (if phase th' = OnRunway \<and> aircraft_type th = 0 then 1 else 0)"
    and "waiting_cargo g' = waiting_cargo g -
           (if phase th' = OnRunway \<and> aircraft_type th = 1 then 1 else 0)"
    and "waiting_south g' = waiting_south g -
           (if phase th' = OnRunway \<and> aircraft_type th = 1 then 1 else 0)"
    and "waiting_emergency g' = waiting_emergency g -
           (if phase th' = OnRunway \<and> aircraft_type th \<noteq> 0 \<and> aircraft_type th \<noteq> 1 then 1 else 0)"
  using assms by (auto simp: pass_unfold field_simps_runway runway_consts split: if_splits)

lemma pass_fairness:
  assumes "aircraft_enter_pass now th g = (th', g')"
  shows "last_regular_type g' =
           (if phase th' = OnRunway \<and> (aircraft_type th = 0 \<or> aircraft_type th = 1)
            then aircraft_type th else last_regular_type g)"
    and "regular_type_count g' =
           (if phase th' = OnRunway \<and> (aircraft_type th = 0 \<or> aircraft_type th = 1)
            then (if last_regular_type g = aircraft_type th then regular_type_count g + 1 else 1)
            else regular_type_count g)"
  using assms by (auto simp: pass_unfold field_simps_runway runway_consts split: if_splits)

section \<open>The invariants hold in every reachable state\<close>

lemma aircraft_enter_as_pass:
  "aircraft_enter now th g = aircraft_enter_pass now (th\<lparr>fuel_emergency := 0\<rparr>) (register th g)"
  by (simp add: aircraft_enter_def aircraft_enter_pass_def commercial_enter_def
      cargo_enter_def emergency_enter_def register_def)

lemma count_where_update:
  "i < length ts \<Longrightarrow>
   count_where P (ts[i := x]) =
     count_where P ts - (if P (ts ! i) then 1 else 0) + (if P x then 1 else 0)"
proof (induction ts arbitrary: i)
  case Nil
  then show ?case by simp
next
  case (Cons t ts)
  show ?case
  proof (cases i)
    case 0
    then show ?thesis by (simp add: count_where_def)
  next
    case (Suc j)
    with Cons.prems have "j < length ts" by simp
    from Cons.IH[OF this] Suc show ?thesis
      by (auto simp: count_where_def split: if_splits)
  qed
qed

lemma count_where_nonneg: "0 \<le> count_where P ts"
  by (simp add: count_where_def)

lemma pass_runway_inv:
  assumes "aircraft_enter_pass now th g = (th', g')" and "runway_inv g"
  shows "runway_inv g'"
proof (cases "phase th' = OnRunway")
  case True
  note c = pass_counters[OF assms(1)] and gd = pass_guard[OF assms(1) True]
  show ?thesis using assms(2) True gd
    unfolding runway_inv_def valid_direction_def c by (auto simp: runway_consts)
next
  case False
  note c = pass_counters[OF assms(1)]
  show ?thesis using assms(2) False
    unfolding runway_inv_def valid_direction_def c by simp
qed

lemma register_runway_inv: "runway_inv g \<Longrightarrow> runway_inv (register th g)"
  by (simp add: runway_inv_def register_def valid_direction_def)

lemma leave_runway_inv:
  assumes "aircraft_leave th g = Inr g'" and "runway_inv g"
  shows "runway_inv g'"
  using assms
  by (auto simp: aircraft_leave_def commercial_leave_def cargo_leave_def emergency_leave_def
      Let_def runway_inv_def valid_direction_def split: if_splits)


lemma leave_counters:
  assumes "aircraft_leave th g = Inr g'"
  shows "aircraft_on_runway g' = aircraft_on_runway g - 1"
    and "commercial_on_runway g' = commercial_on_runway g - (if aircraft_type th = 0 then 1 else 0)"
    and "cargo_on_runway g' = cargo_on_runway g - (if aircraft_type th = 1 then 1 else 0)"
    and "emergency_on_runway g' = emergency_on_runway g -
           (if aircraft_type th \<noteq> 0 \<and> aircraft_type th \<noteq> 1 then 1 else 0)"
    and "g' = g\<lparr>aircraft_on_runway := aircraft_on_runway g', commercial_on_runway := commercial_on_runway g',
             cargo_on_runway := cargo_on_runway g', emergency_on_runway := emergency_on_runway g'\<rparr>"
  using assms
  by (auto simp: aircraft_leave_def commercial_leave_def cargo_leave_def emergency_leave_def
      Let_def runway_consts split: if_splits)

lemma register_counters:
  "waiting_commercial (register th g) = waiting_commercial g + (if aircraft_type th = 0 then 1 else 0)"
  "waiting_cargo (register th g) = waiting_cargo g + (if aircraft_type th = 1 then 1 else 0)"
  "waiting_emergency (register th g) = waiting_emergency g +
     (if aircraft_type th \<noteq> 0 \<and> aircraft_type th \<noteq> 1 then 1 else 0)"
  "commercial_on_runway (register th g) = commercial_on_runway g"
  "cargo_on_runway (register th g) = cargo_on_runway g"
  "emergency_on_runway (register th g) = emergency_on_runway g"
  "aircraft_on_runway (register th g) = aircraft_on_runway g"
  "aircraft_since_break (register th g) = aircraft_since_break g"
  "current_direction (register th g) = current_direction g"
  "consecutive_direction (register th g) = consecutive_direction g"
  "last_regular_type (register th g) = last_regular_type g"
  "regular_type_count (register th g) = regular_type_count g"
  by (simp_all add: register_def runway_consts)

lemma pass_threads_inv:
  assumes p: "aircraft_enter_pass now th0 g0 = (th', g')"
    and i: "i < length (threads s)"
    and ph: "phase (threads s ! i) \<noteq> OnRunway"
    and ty: "aircraft_type th0 = aircraft_type (threads s ! i)"
    and on: "commercial_on_runway g0 = commercial_on_runway (globals s)"
            "cargo_on_runway g0 = cargo_on_runway (globals s)"
            "emergency_on_runway g0 = emergency_on_runway (globals s)"
    and w: "waiting_commercial g0 = waiting_commercial (globals s) +
              (if phase (threads s ! i) \<noteq> Waiting \<and> aircraft_type th0 = 0 then 1 else 0)"
           "waiting_cargo g0 = waiting_cargo (globals s) +
              (if phase (threads s ! i) \<noteq> Waiting \<and> aircraft_type th0 = 1 then 1 else 0)"
           "waiting_emergency g0 = waiting_emergency (globals s) +
              (if phase (threads s ! i) \<noteq> Waiting \<and> aircraft_type th0 \<noteq> 0 \<and> aircraft_type th0 \<noteq> 1
               then 1 else 0)"
    and inv: "threads_inv s"
  shows "threads_inv (s\<lparr>globals := g', threads := (threads s)[i := th']\<rparr>)"
proof -
  note c = pass_counters[OF p] and t = pass_thread[OF p]
  show ?thesis
    using inv ph ty t
    unfolding threads_inv_def
    by (auto simp: c on w count_where_update[OF i] on_runway_of_def waiting_as_def runway_consts)
qed

lemma start_inv:
  assumes "step (Start i t) s = Inr s'" and "sys_inv s"
  shows "sys_inv s'"
proof -
  from assms(1) have i: "i < length (threads s)" and ph: "phase (threads s ! i) = NotStarted"
    and s': "s' = s\<lparr>threads := (threads s)[i := thread_start t (threads s ! i)]\<rparr>"
    by (auto split: if_splits)
  show ?thesis using assms(2) ph unfolding s' sys_inv_def threads_inv_def maintenance_inv_def
    by (simp add: count_where_update[OF i] on_runway_of_def waiting_as_def thread_start_def)
qed

lemma enter_inv:
  assumes "step (Enter i now) s = Inr s'" and "sys_inv s"
  shows "sys_inv s'"
proof -
  from assms(1) have i: "i < length (threads s)" and ph: "phase (threads s ! i) = Started"
    and m: "controller s = CIdle"
    by (auto simp: mutex_free_def split: if_splits)
  obtain th' g' where p: "aircraft_enter now (threads s ! i) (globals s) = (th', g')"
    by fastforce
  with assms(1) i ph m have s': "s' = s\<lparr>globals := g', threads := (threads s)[i := th']\<rparr>"
    by (simp add: mutex_free_def)
  note p' = p[unfolded aircraft_enter_as_pass]
  have 1: "runway_inv g'"
    using pass_runway_inv[OF p' register_runway_inv] assms(2) by (simp add: sys_inv_def)
  have 2: "threads_inv s'" unfolding s'
    by (rule pass_threads_inv[OF p' i]) (use assms(2) ph in \<open>simp_all add: register_counters sys_inv_def\<close>)
  have 3: "maintenance_inv s'" unfolding s' using m by (simp add: maintenance_inv_def)
  show ?thesis using 1 2 3 by (simp add: sys_inv_def s')
qed

lemma retry_inv:
  assumes "step (Retry i now) s = Inr s'" and "sys_inv s"
  shows "sys_inv s'"
proof -
  from assms(1) have i: "i < length (threads s)" and ph: "phase (threads s ! i) = Waiting"
    and m: "controller s = CIdle"
    by (auto simp: mutex_free_def split: if_splits)
  obtain th' g' where p: "aircraft_enter_pass now (threads s ! i) (globals s) = (th', g')"
    by fastforce
  with assms(1) i ph m have s': "s' = s\<lparr>globals := g', threads := (threads s)[i := th']\<rparr>"
    by (simp add: mutex_free_def)
  have 1: "runway_inv g'"
    using pass_runway_inv[OF p] assms(2) by (simp add: sys_inv_def)
  have 2: "threads_inv s'" unfolding s'
    by (rule pass_threads_inv[OF p i]) (use assms(2) ph in \<open>simp_all add: sys_inv_def\<close>)
  have 3: "maintenance_inv s'" unfolding s' using m by (simp add: maintenance_inv_def)
  show ?thesis using 1 2 3 by (simp add: sys_inv_def s')
qed

lemma leave_inv:
  assumes "step (Leave i) s = Inr s'" and "sys_inv s"
  shows "sys_inv s'"
proof -
  from assms(1) have i: "i < length (threads s)" and ph: "phase (threads s ! i) = OnRunway"
    and m: "controller s = CIdle"
    by (auto simp: mutex_free_def split: if_splits)
  from assms(1) i ph m obtain g' where l: "aircraft_leave (threads s ! i) (globals s) = Inr g'"
    and s': "s' = s\<lparr>globals := g',
                    threads := (threads s)[i := (threads s ! i)\<lparr>phase := Departed\<rparr>],
                    cond_aircraft := Suc (cond_aircraft s)\<rparr>"
    by (auto simp: mutex_free_def split: sum.splits)
  note c = leave_counters[OF l]
  have 1: "runway_inv g'"
    using leave_runway_inv[OF l] assms(2) by (simp add: sys_inv_def)
  have w: "waiting_commercial g' = waiting_commercial (globals s)"
      "waiting_cargo g' = waiting_cargo (globals s)"
      "waiting_emergency g' = waiting_emergency (globals s)"
    by (subst c(5), simp)+
  have 2: "threads_inv s'" using assms(2) ph unfolding s' sys_inv_def threads_inv_def
    by (auto simp: c(2,3,4) w count_where_update[OF i] on_runway_of_def waiting_as_def runway_consts)
  have 3: "maintenance_inv s'" unfolding s' using m by (simp add: maintenance_inv_def)
  show ?thesis using 1 2 3 by (simp add: sys_inv_def s')
qed

lemma poll_inv:
  assumes "step Ctrl_poll s = Inr s'" and "sys_inv s"
  shows "sys_inv s'"
  using assms
  by (auto simp: controller_poll_def controller_decision_def sys_inv_def threads_inv_def
      maintenance_inv_def mutex_free_def split: if_splits decision.splits)

lemma done_inv:
  assumes "step Ctrl_done s = Inr s'" and "sys_inv s"
  shows "sys_inv s'"
  using assms
  by (auto simp: controller_done_def take_break_def switch_direction_finish_def sys_inv_def
      threads_inv_def maintenance_inv_def runway_inv_def valid_direction_def runway_consts
      split: if_splits cphase.splits)

lemma step_inv: "step e s = Inr s' \<Longrightarrow> sys_inv s \<Longrightarrow> sys_inv s'"
  by (cases e) (auto intro: start_inv enter_inv retry_inv leave_inv poll_inv done_inv simp del: step.simps)

lemma run_inv: "run es s = Inr s' \<Longrightarrow> sys_inv s \<Longrightarrow> sys_inv s'"
proof (induction es arbitrary: s)
  case Nil
  then show ?case by simp
next
  case (Cons e es)
  then show ?case by (auto split: sum.splits dest: step_inv)
qed

lemma count_where_none: "(\<And>t. t \<in> set ts \<Longrightarrow> \<not> P t) \<Longrightarrow> count_where P ts = 0"
  by (simp add: count_where_def filter_empty_conv)

lemma new_thread_phase: "phase (new_thread p) = NotStarted"
  by (cases p) (simp add: new_thread_def)

lemma init_inv: "sys_inv (init_sys ai)"
proof -
  have "count_where (on_runway_of c) (map new_thread xs) = 0"
       "count_where (waiting_as c) (map new_thread xs) = 0" for c xs
    by (rule count_where_none; auto simp: on_runway_of_def waiting_as_def new_thread_phase)+
  then show ?thesis
    by (simp add: sys_inv_def runway_inv_def threads_inv_def maintenance_inv_def init_sys_def
        init_runway_def valid_direction_def)
qed

lemma reachable_inv: "run es (init_sys ai) = Inr s \<Longrightarrow> sys_inv s"
  using run_inv init_inv by blast

section \<open>What one step does\<close>

lemma count_where_pos: "i < length ts \<Longrightarrow> P (ts ! i) \<Longrightarrow> 0 < count_where P ts"
  unfolding count_where_def using nth_mem[of i ts] by (auto simp: filter_empty_conv)

lemma admitted_step:
  assumes st: "step e s = Inr s'" and ad: "admitted e s s' = Some c"
  shows "\<exists>i now th0 g0 th'.
           (e = Enter i now \<and> phase (threads s ! i) = Started \<and> th0 = (threads s ! i)\<lparr>fuel_emergency := 0\<rparr>
              \<and> g0 = register (threads s ! i) (globals s)
            \<or> e = Retry i now \<and> phase (threads s ! i) = Waiting \<and> th0 = threads s ! i \<and> g0 = globals s)
           \<and> i < length (threads s) \<and> controller s = CIdle
           \<and> aircraft_enter_pass now th0 g0 = (th', globals s')
           \<and> phase th' = OnRunway \<and> aircraft_type th0 = c \<and> aircraft_type (threads s ! i) = c
           \<and> s' = s\<lparr>globals := globals s', threads := (threads s)[i := th']\<rparr>"
proof (cases e)
  case (Enter i now)
  from st Enter have i: "i < length (threads s)" and ph: "phase (threads s ! i) = Started"
    and m: "controller s = CIdle"
    by (auto simp: mutex_free_def split: if_splits)
  obtain th' g' where p: "aircraft_enter now (threads s ! i) (globals s) = (th', g')"
    by fastforce
  with st Enter i ph m have s': "s' = s\<lparr>globals := g', threads := (threads s)[i := th']\<rparr>"
    by (simp add: mutex_free_def)
  from ad Enter s' i have "phase th' = OnRunway" "aircraft_type (threads s ! i) = c"
    by (auto simp: admitted_def split: if_splits)
  with Enter i ph m p[unfolded aircraft_enter_as_pass] s' show ?thesis by auto
next
  case (Retry i now)
  from st Retry have i: "i < length (threads s)" and ph: "phase (threads s ! i) = Waiting"
    and m: "controller s = CIdle"
    by (auto simp: mutex_free_def split: if_splits)
  obtain th' g' where p: "aircraft_enter_pass now (threads s ! i) (globals s) = (th', g')"
    by fastforce
  with st Retry i ph m have s': "s' = s\<lparr>globals := g', threads := (threads s)[i := th']\<rparr>"
    by (simp add: mutex_free_def)
  from ad Retry s' i have "phase th' = OnRunway" "aircraft_type (threads s ! i) = c"
    by (auto simp: admitted_def split: if_splits)
  with Retry i ph m p s' show ?thesis by auto
qed (use ad in \<open>simp_all add: admitted_def\<close>)

lemma admitted_counters:
  assumes st: "step e s = Inr s'" and ad: "admitted e s s' = Some c"
  shows "aircraft_on_runway (globals s') = aircraft_on_runway (globals s) + 1"
    and "aircraft_since_break (globals s') = aircraft_since_break (globals s) + 1"
    and "consecutive_direction (globals s') = consecutive_direction (globals s) + 1"
    and "current_direction (globals s') = current_direction (globals s)"
    and "commercial_on_runway (globals s') = commercial_on_runway (globals s) + (if c = 0 then 1 else 0)"
    and "cargo_on_runway (globals s') = cargo_on_runway (globals s) + (if c = 1 then 1 else 0)"
    and "emergency_on_runway (globals s') = emergency_on_runway (globals s) +
           (if c \<noteq> 0 \<and> c \<noteq> 1 then 1 else 0)"
    and "aircraft_on_runway (globals s) < 2" and "aircraft_since_break (globals s) < 8"
    and "controller s = CIdle" and "controller s' = CIdle"
    and "cond_aircraft s' = cond_aircraft s"
proof -
  from admitted_step[OF st ad] obtain i now th0 g0 th' where
    g0: "g0 = register (threads s ! i) (globals s) \<or> g0 = globals s"
    and m: "controller s = CIdle"
    and p: "aircraft_enter_pass now th0 g0 = (th', globals s')"
    and ph: "phase th' = OnRunway" and ty: "aircraft_type th0 = c"
    and s': "s' = s\<lparr>globals := globals s', threads := (threads s)[i := th']\<rparr>"
    by blast
  note c = pass_counters[OF p] and gd = pass_guard[OF p ph]
  from g0 have r: "aircraft_on_runway g0 = aircraft_on_runway (globals s)"
    "aircraft_since_break g0 = aircraft_since_break (globals s)"
    "consecutive_direction g0 = consecutive_direction (globals s)"
    "current_direction g0 = current_direction (globals s)"
    "commercial_on_runway g0 = commercial_on_runway (globals s)"
    "cargo_on_runway g0 = cargo_on_runway (globals s)"
    "emergency_on_runway g0 = emergency_on_runway (globals s)"
    by (auto simp: register_counters)
  show "aircraft_on_runway (globals s') = aircraft_on_runway (globals s) + 1"
    and "aircraft_since_break (globals s') = aircraft_since_break (globals s) + 1"
    and "consecutive_direction (globals s') = consecutive_direction (globals s) + 1"
    and "current_direction (globals s') = current_direction (globals s)"
    and "commercial_on_runway (globals s') = commercial_on_runway (globals s) + (if c = 0 then 1 else 0)"
    and "cargo_on_runway (globals s') = cargo_on_runway (globals s) + (if c = 1 then 1 else 0)"
    and "emergency_on_runway (globals s') = emergency_on_runway (globals s) +
           (if c \<noteq> 0 \<and> c \<noteq> 1 then 1 else 0)"
    using c ph ty r by simp_all
  show "aircraft_on_runway (globals s) < 2" "aircraft_since_break (globals s) < 8"
    using gd(1,2) r by simp_all
  show "controller s = CIdle" by (rule m)
  show "controller s' = CIdle" by (subst s') (simp add: m)
  show "cond_aircraft s' = cond_aircraft s" by (subst s') simp
qed

lemma blocked_step:
  assumes st: "step e s = Inr s'" and ad: "admitted e s s' = None"
    and e: "e = Enter i now \<or> e = Retry i now"
  shows "aircraft_on_runway (globals s') = aircraft_on_runway (globals s)"
    and "aircraft_since_break (globals s') = aircraft_since_break (globals s)"
    and "consecutive_direction (globals s') = consecutive_direction (globals s)"
    and "current_direction (globals s') = current_direction (globals s)"
    and "commercial_on_runway (globals s') = commercial_on_runway (globals s)"
    and "cargo_on_runway (globals s') = cargo_on_runway (globals s)"
    and "emergency_on_runway (globals s') = emergency_on_runway (globals s)"
    and "last_regular_type (globals s') = last_regular_type (globals s)"
    and "regular_type_count (globals s') = regular_type_count (globals s)"
    and "controller s' = controller s"
    and "cond_aircraft s' = cond_aircraft s"
proof -
  from st e have i: "i < length (threads s)" and m: "controller s = CIdle"
    by (auto simp: mutex_free_def split: if_splits)
  define th0 where "th0 = (if e = Enter i now then (threads s ! i)\<lparr>fuel_emergency := 0\<rparr> else threads s ! i)"
  define g0 where "g0 = (if e = Enter i now then register (threads s ! i) (globals s) else globals s)"
  obtain th' g' where p: "aircraft_enter_pass now th0 g0 = (th', g')" by fastforce
  from st e i m p have s': "s' = s\<lparr>globals := g', threads := (threads s)[i := th']\<rparr>"
    by (auto simp: mutex_free_def th0_def g0_def aircraft_enter_as_pass split: if_splits)
  from ad e s' i have ph: "phase th' \<noteq> OnRunway"
    by (auto simp: admitted_def split: if_splits)
  note c = pass_counters[OF p] and f = pass_fairness[OF p]
  have g': "globals s' = g'" by (subst s') simp
  show "aircraft_on_runway (globals s') = aircraft_on_runway (globals s)"
    and "aircraft_since_break (globals s') = aircraft_since_break (globals s)"
    and "consecutive_direction (globals s') = consecutive_direction (globals s)"
    and "current_direction (globals s') = current_direction (globals s)"
    and "commercial_on_runway (globals s') = commercial_on_runway (globals s)"
    and "cargo_on_runway (globals s') = cargo_on_runway (globals s)"
    and "emergency_on_runway (globals s') = emergency_on_runway (globals s)"
    and "last_regular_type (globals s') = last_regular_type (globals s)"
    and "regular_type_count (globals s') = regular_type_count (globals s)"
    unfolding g' c f using ph by (simp_all add: g0_def register_counters)
  show "controller s' = controller s" "cond_aircraft s' = cond_aircraft s"
    by (subst s', simp)+
qed

lemma leave_step:
  assumes st: "step (Leave i) s = Inr s'"
  shows "aircraft_leave (threads s ! i) (globals s) = Inr (globals s')"
    and "controller s = CIdle" and "controller s' = CIdle"
    and "cond_aircraft s' = Suc (cond_aircraft s)"
    and "i < length (threads s)" and "phase (threads s ! i) = OnRunway"
  using st by (auto simp: mutex_free_def split: if_splits sum.splits)

lemma start_step:
  assumes "step (Start i t) s = Inr s'"
  shows "globals s' = globals s" "controller s' = controller s" "cond_aircraft s' = cond_aircraft s"
  using assms by (auto split: if_splits)

lemma poll_step:
  assumes "step Ctrl_poll s = Inr s'"
  shows "globals s' = globals s" "cond_aircraft s' = cond_aircraft s" "controller s = CIdle"
    "controller s' \<noteq> CIdle \<Longrightarrow> aircraft_on_runway (globals s) = 0"
    "controller s' = CBreak \<Longrightarrow> aircraft_since_break (globals s) \<ge> 8"
  using assms
  by (auto simp: mutex_free_def controller_poll_def controller_decision_def runway_consts
      split: if_splits decision.splits)

lemma done_step:
  assumes "step Ctrl_done s = Inr s'"
  shows "controller s \<noteq> CIdle" "controller s' = CIdle"
    "cond_aircraft s' = Suc (cond_aircraft s)"
    "controller s = CBreak \<Longrightarrow> globals s' = (globals s)\<lparr>aircraft_since_break := 0\<rparr>
        \<and> aircraft_on_runway (globals s) = 0"
    "controller s = CSwitch \<Longrightarrow> globals s' = switch_direction_finish (globals s)"
  using assms
  by (auto simp: controller_done_def take_break_def split: if_splits cphase.splits sum.splits)

lemma step_break_counter:
  assumes st: "step e s = Inr s'" and nb: "\<not> (e = Ctrl_done \<and> controller s = CBreak)"
  shows "aircraft_since_break (globals s') =
           aircraft_since_break (globals s) + (if admitted e s s' = None then 0 else 1)"
proof (cases e)
  case (Start i t)
  with st start_step(1)[of i t s s'] show ?thesis by (simp add: admitted_def)
next
  case (Enter i now)
  show ?thesis
  proof (cases "admitted e s s'")
    case None
    from blocked_step(2)[OF st None, of i now] Enter None show ?thesis by simp
  next
    case (Some c)
    from admitted_counters(2)[OF st Some] Some show ?thesis by simp
  qed
next
  case (Retry i now)
  show ?thesis
  proof (cases "admitted e s s'")
    case None
    from blocked_step(2)[OF st None, of i now] Retry None show ?thesis by simp
  next
    case (Some c)
    from admitted_counters(2)[OF st Some] Some show ?thesis by simp
  qed
next
  case (Leave i)
  with st have l: "aircraft_leave (threads s ! i) (globals s) = Inr (globals s')"
    using leave_step(1) by blast
  have "aircraft_since_break (globals s') = aircraft_since_break (globals s)"
    by (subst leave_counters(5)[OF l]) simp
  with Leave show ?thesis by (simp add: admitted_def)
next
  case Ctrl_poll
  with st poll_step(1)[of s s'] show ?thesis by (simp add: admitted_def)
next
  case Ctrl_done
  with st nb done_step(1,5)[of s s'] have "globals s' = switch_direction_finish (globals s)"
    by (cases "controller s") auto
  with Ctrl_done show ?thesis by (simp add: admitted_def switch_direction_finish_def)
qed

lemma step_direction:
  assumes st: "step e s = Inr s'" and nb: "\<not> (e = Ctrl_done \<and> controller s = CSwitch)"
  shows "current_direction (globals s') = current_direction (globals s)"
proof (cases e)
  case (Start i t)
  with st start_step(1)[of i t s s'] show ?thesis by simp
next
  case (Enter i now)
  show ?thesis
  proof (cases "admitted e s s'")
    case None
    from blocked_step(4)[OF st None, of i now] Enter show ?thesis by simp
  next
    case (Some c)
    from admitted_counters(4)[OF st Some] show ?thesis .
  qed
next
  case (Retry i now)
  show ?thesis
  proof (cases "admitted e s s'")
    case None
    from blocked_step(4)[OF st None, of i now] Retry show ?thesis by simp
  next
    case (Some c)
    from admitted_counters(4)[OF st Some] show ?thesis .
  qed
next
  case (Leave i)
  with st have l: "aircraft_leave (threads s ! i) (globals s) = Inr (globals s')"
    using leave_step(1) by blast
  show ?thesis by (subst leave_counters(5)[OF l]) simp
next
  case Ctrl_poll
  with st poll_step(1)[of s s'] show ?thesis by simp
next
  case Ctrl_done
  with st nb done_step(1,4)[of s s'] have "globals s' = (globals s)\<lparr>aircraft_since_break := 0\<rparr>"
    by (cases "controller s") auto
  then show ?thesis by simp
qed

lemma step_while_maintenance:
  assumes st: "step e s = Inr s'" and c: "controller s \<noteq> CIdle"
  shows "(\<exists>i t. e = Start i t) \<or> e = Ctrl_done"
  using st c by (cases e) (auto simp: mutex_free_def split: if_splits)

section \<open>The fairness counters follow the record of admissions\<close>

lemma admitted_fairness:
  assumes st: "step e s = Inr s'" and ad: "admitted e s s' = Some c"
  shows "last_regular_type (globals s') =
           (if c = 0 \<or> c = 1 then c else last_regular_type (globals s))"
    and "regular_type_count (globals s') =
           (if c = 0 \<or> c = 1
            then (if last_regular_type (globals s) = c then regular_type_count (globals s) + 1 else 1)
            else regular_type_count (globals s))"
    and "c = 0 \<Longrightarrow> regular_type_count (globals s) \<ge> 4 \<Longrightarrow> last_regular_type (globals s) = 0
           \<Longrightarrow> waiting_cargo (globals s) \<le> 0"
    and "c = 1 \<Longrightarrow> regular_type_count (globals s) \<ge> 4 \<Longrightarrow> last_regular_type (globals s) = 1
           \<Longrightarrow> waiting_commercial (globals s) \<le> 0"
proof -
  from admitted_step[OF st ad] obtain i now th0 g0 th' where
    g0: "g0 = register (threads s ! i) (globals s) \<or> g0 = globals s"
    and p: "aircraft_enter_pass now th0 g0 = (th', globals s')"
    and ph: "phase th' = OnRunway" and ty: "aircraft_type th0 = c"
    and ty': "aircraft_type (threads s ! i) = c"
    by blast
  note f = pass_fairness[OF p] and gd = pass_guard(5,6)[OF p ph]
  from g0 have r: "last_regular_type g0 = last_regular_type (globals s)"
    "regular_type_count g0 = regular_type_count (globals s)"
    by (auto simp: register_counters)
  from g0 ty' have w: "c = 0 \<Longrightarrow> waiting_cargo g0 = waiting_cargo (globals s)"
    "c = 1 \<Longrightarrow> waiting_commercial g0 = waiting_commercial (globals s)"
    by (auto simp: register_counters)
  show "last_regular_type (globals s') =
           (if c = 0 \<or> c = 1 then c else last_regular_type (globals s))"
    and "regular_type_count (globals s') =
           (if c = 0 \<or> c = 1
            then (if last_regular_type (globals s) = c then regular_type_count (globals s) + 1 else 1)
            else regular_type_count (globals s))"
    using f ph ty r by simp_all
  show "c = 0 \<Longrightarrow> regular_type_count (globals s) \<ge> 4 \<Longrightarrow> last_regular_type (globals s) = 0
           \<Longrightarrow> waiting_cargo (globals s) \<le> 0"
    using gd(1) ty r w by simp
  show "c = 1 \<Longrightarrow> regular_type_count (globals s) \<ge> 4 \<Longrightarrow> last_regular_type (globals s) = 1
           \<Longrightarrow> waiting_commercial (globals s) \<le> 0"
    using gd(2) ty r w by simp
qed

lemma unadmitted_fairness:
  assumes st: "step e s = Inr s'" and ad: "admitted e s s' = None"
  shows "last_regular_type (globals s') = last_regular_type (globals s)
       \<and> regular_type_count (globals s') = regular_type_count (globals s)"
proof (cases e)
  case (Start i t)
  with st start_step(1)[of i t s s'] show ?thesis by simp
next
  case (Enter i now)
  with blocked_step(8,9)[OF st ad, of i now] show ?thesis by simp
next
  case (Retry i now)
  with blocked_step(8,9)[OF st ad, of i now] show ?thesis by simp
next
  case (Leave i)
  with st have l: "aircraft_leave (threads s ! i) (globals s) = Inr (globals s')"
    using leave_step(1) by blast
  show ?thesis by (subst (1 2) leave_counters(5)[OF l]) simp
next
  case Ctrl_poll
  with st poll_step(1)[of s s'] show ?thesis by simp
next
  case Ctrl_done
  with st have d: "step Ctrl_done s = Inr s'" by simp
  show ?thesis
  proof (cases "controller s")
    case CIdle
    with done_step(1)[OF d] show ?thesis by simp
  next
    case CBreak
    from done_step(4)[OF d CBreak] have "globals s' = (globals s)\<lparr>aircraft_since_break := 0\<rparr>"
      by simp
    then show ?thesis by simp
  next
    case CSwitch
    from done_step(5)[OF d CSwitch] show ?thesis by (simp add: switch_direction_finish_def)
  qed
qed

lemma step_fairness_inv:
  assumes st: "step e s = Inr s'" and inv: "fairness_inv (globals s) log"
  shows "fairness_inv (globals s')
           (case admitted e s s' of None \<Rightarrow> log | Some c \<Rightarrow> c # log)"
proof (cases "admitted e s s'")
  case None
  with unadmitted_fairness[OF st None] inv show ?thesis
    by (auto simp: fairness_inv_def split: list.splits)
next
  case (Some c)
  note f = admitted_fairness(1,2)[OF st Some]
  show ?thesis
  proof (cases "c = 0 \<or> c = 1")
    case False
    with f inv Some show ?thesis
      by (auto simp: fairness_inv_def standard_run_def runway_consts split: list.splits)
  next
    case True
    with f inv Some show ?thesis
      by (auto simp: fairness_inv_def standard_run_def runway_consts split: list.splits)
  qed
qed

lemma run_log_inv:
  "run_log es (s, log) = Inr (s', log') \<Longrightarrow> sys_inv s \<Longrightarrow> fairness_inv (globals s) log
   \<Longrightarrow> sys_inv s' \<and> fairness_inv (globals s') log'"
proof (induction es arbitrary: s log)
  case Nil
  then show ?case by simp
next
  case (Cons e es)
  from Cons.prems(1) obtain s1 where st: "step e s = Inr s1"
    and rest: "run_log es (s1, case admitted e s s1 of None \<Rightarrow> log | Some c \<Rightarrow> c # log)
                 = Inr (s', log')"
    by (auto split: sum.splits)
  from Cons.IH[OF rest step_inv[OF st Cons.prems(2)] step_fairness_inv[OF st Cons.prems(3)]]
  show ?case .
qed

lemma init_fairness_inv: "fairness_inv (globals (init_sys ai)) []"
  by (simp add: fairness_inv_def init_sys_def init_runway_def)

lemma fairness_inv_run_length:
  "fairness_inv g log \<Longrightarrow> regular_type_count g = int (standard_run (last_regular_type g) log)"
  by (auto simp: fairness_inv_def standard_run_def runway_consts split: list.splits)

lemma count_where_zero: "count_where P ts \<le> 0 \<Longrightarrow> i < length ts \<Longrightarrow> \<not> P (ts ! i)"
  using count_where_pos[of i ts P] by fastforce

lemma fairness_inv_head:
  assumes "fairness_inv g log" and "c = COMMERCIAL \<or> c = CARGO" and "4 \<le> standard_run c log"
  shows "last_regular_type g = c \<and> regular_type_count g \<ge> 4"
proof (cases "filter (\<lambda>x. x = COMMERCIAL \<or> x = CARGO) log")
  case Nil
  with assms(3) show ?thesis by (simp add: standard_run_def)
next
  case (Cons x xs)
  with assms(3) have "x = c" by (auto simp: standard_run_def split: if_splits)
  with Cons assms(1,3) show ?thesis by (simp add: fairness_inv_def)
qed

section \<open>The example runs, evaluated\<close>

lemma one_up_run: "run one_up_trace (init_sys stall_fleet) = Inr one_up_state"
  by code_simp

lemma one_up_step: "step (Enter 1 0) one_up_state = Inr two_up_state"
  by code_simp

lemma one_up_admitted: "admitted (Enter 1 0) one_up_state two_up_state = Some COMMERCIAL"
  by code_simp

lemma two_up_run: "run (one_up_trace @ [Enter 1 0]) (init_sys stall_fleet) = Inr two_up_state"
  by code_simp

lemma two_up_leave: "step (Leave 0) two_up_state = Inr one_left_state"
  by code_simp

lemma stall_run: "run stall_trace (init_sys stall_fleet) = Inr stall_state"
  by code_simp

lemma break_run: "run break_trace (init_sys break_fleet) = Inr break_state"
  by code_simp

lemma break_step: "step Ctrl_done break_state = Inr break_done_state"
  by code_simp

lemma switch_run: "run switch_trace (init_sys switch_fleet) = Inr switch_state"
  by code_simp

lemma switch_step: "step Ctrl_done switch_state = Inr switch_done_state"
  by code_simp

lemma fair_run: "run_log fair_trace (init_sys fair_fleet, []) = Inr (fair_state, [0, 0, 0, 0])"
  by code_simp

lemma fair_step: "step (Enter 4 0) fair_state = Inr fair_next_state"
  by code_simp

lemma fair_admitted: "admitted (Enter 4 0) fair_state fair_next_state = Some COMMERCIAL"
  by code_simp

lemma stall_release: "step (Retry 3 75) stall_state = Inr stall_released_state"
  by code_simp

lemma stall_release_admitted:
  "admitted (Retry 3 75) stall_state stall_released_state = Some EMERGENCY"
  by code_simp

section \<open>The aircraft list never exceeds the array\<close>

lemma read_aircraft_bound:
  "length ai \<le> MAX_AIRCRAFT \<Longrightarrow> length (read_aircraft ls rand ai) \<le> MAX_AIRCRAFT"
proof (induction ls arbitrary: ai)
  case Nil
  then show ?case by simp
next
  case (Cons l ls)
  show ?case
  proof (cases "length ai < MAX_AIRCRAFT")
    case False
    with Cons.prems show ?thesis by simp
  next
    case True
    then have "length (ai @ [x]) \<le> MAX_AIRCRAFT" for x by simp
    with True Cons.IH Cons.prems show ?thesis
      by (auto split: option.splits prod.splits)
  qed
qed

section \<open>The admission predicate\<close>

text \<open>
  C1. For every shared state (its direction NORTH or SOUTH, as the data model has it) and
  every candidate request, \<open>can_enter_common\<close> returns 1 exactly when the request passes
  all eight checks, tried in their fixed order with the first failing check denying:
  capacity, break gate, direction (standard classes only), class segregation, global
  escalation priority, emergency precedence, fairness, direction yielding; it returns 0
  otherwise.
\<close>

theorem can_enter_common_eight_checks:
  "valid_direction g \<Longrightarrow>
   can_enter_common g ai d fe = (if can_admit g (aircraft_type ai) d (fe \<noteq> 0) then 1 else 0)"
proof -
  assume v: "valid_direction g"
  have "can_enter_common g ai d fe \<noteq> 0 \<longleftrightarrow> can_admit g (aircraft_type ai) d (fe \<noteq> 0)"
    unfolding can_enter_common_admits can_admit_all check_defs
    using v by (auto simp: valid_direction_def opposite_waiting_def other_type_waiting_def runway_consts)
  then show ?thesis using can_enter_common_01[of g ai d fe] by simp
qed

theorem can_enter_common_eight_checks_witness:
  "valid_direction init_runway \<and>
   can_admit init_runway COMMERCIAL NORTH False \<and>
   can_enter_common init_runway
     \<lparr>arrival_time = 0, runway_time = 3, aircraft_id = 0, aircraft_type = COMMERCIAL,
      fuel_reserve = 20, arrival_timestamp = 0\<rparr> NORTH 0 = 1 \<and>
   \<not> can_admit init_runway CARGO SOUTH False \<and>
   can_enter_common init_runway
     \<lparr>arrival_time = 0, runway_time = 3, aircraft_id = 1, aircraft_type = CARGO,
      fuel_reserve = 20, arrival_timestamp = 0\<rparr> SOUTH 0 = 0"
proof -
  have v: "valid_direction init_runway"
    by (simp add: valid_direction_def init_runway_def)
  have a: "can_admit init_runway COMMERCIAL NORTH False"
    by (simp add: can_admit_def admission_checks_def check_defs init_runway_def runway_consts)
  have b: "\<not> can_admit init_runway CARGO SOUTH False"
    by (simp add: can_admit_def admission_checks_def check_defs init_runway_def runway_consts)
  show ?thesis
    using v a b
      can_enter_common_eight_checks [OF v, of
        "\<lparr>arrival_time = 0, runway_time = 3, aircraft_id = 0, aircraft_type = COMMERCIAL,
          fuel_reserve = 20, arrival_timestamp = 0\<rparr>" NORTH 0]
      can_enter_common_eight_checks [OF v, of
        "\<lparr>arrival_time = 0, runway_time = 3, aircraft_id = 1, aircraft_type = CARGO,
          fuel_reserve = 20, arrival_timestamp = 0\<rparr>" SOUTH 0]
    by simp
qed

section \<open>Occupancy\<close>

text \<open>
  C2. In every state the program reaches the runway holds between 0 and 2 aircraft and
  the commercial, cargo and emergency counters add up to \<open>aircraft_on_runway\<close>. Every
  admission adds one to \<open>aircraft_on_runway\<close> and to exactly one of the three class
  counters, every release takes one from \<open>aircraft_on_runway\<close> and from exactly one of
  them, and the predicate denies every request while two aircraft are on the runway.
\<close>

theorem occupancy_invariant:
  assumes "run es (init_sys ai) = Inr s"
  shows "0 \<le> aircraft_on_runway (globals s)
       \<and> aircraft_on_runway (globals s) \<le> MAX_RUNWAY_CAPACITY
       \<and> commercial_on_runway (globals s) + cargo_on_runway (globals s)
           + emergency_on_runway (globals s) = aircraft_on_runway (globals s)
       \<and> (\<forall>e s'. step e s = Inr s' \<and> admitted e s s' \<noteq> None \<longrightarrow>
             aircraft_on_runway (globals s') = aircraft_on_runway (globals s) + 1
             \<and> (commercial_on_runway (globals s') = commercial_on_runway (globals s) + 1
                  \<and> cargo_on_runway (globals s') = cargo_on_runway (globals s)
                  \<and> emergency_on_runway (globals s') = emergency_on_runway (globals s)
                \<or> commercial_on_runway (globals s') = commercial_on_runway (globals s)
                  \<and> cargo_on_runway (globals s') = cargo_on_runway (globals s) + 1
                  \<and> emergency_on_runway (globals s') = emergency_on_runway (globals s)
                \<or> commercial_on_runway (globals s') = commercial_on_runway (globals s)
                  \<and> cargo_on_runway (globals s') = cargo_on_runway (globals s)
                  \<and> emergency_on_runway (globals s') = emergency_on_runway (globals s) + 1))
       \<and> (\<forall>i s'. step (Leave i) s = Inr s' \<longrightarrow>
             aircraft_on_runway (globals s') = aircraft_on_runway (globals s) - 1
             \<and> (commercial_on_runway (globals s') = commercial_on_runway (globals s) - 1
                  \<and> cargo_on_runway (globals s') = cargo_on_runway (globals s)
                  \<and> emergency_on_runway (globals s') = emergency_on_runway (globals s)
                \<or> commercial_on_runway (globals s') = commercial_on_runway (globals s)
                  \<and> cargo_on_runway (globals s') = cargo_on_runway (globals s) - 1
                  \<and> emergency_on_runway (globals s') = emergency_on_runway (globals s)
                \<or> commercial_on_runway (globals s') = commercial_on_runway (globals s)
                  \<and> cargo_on_runway (globals s') = cargo_on_runway (globals s)
                  \<and> emergency_on_runway (globals s') = emergency_on_runway (globals s) - 1))
       \<and> (\<forall>a d fe. aircraft_on_runway (globals s) \<ge> 2 \<longrightarrow>
             can_enter_common (globals s) (a :: thread) d fe = 0)"
proof -
  from reachable_inv[OF assms] have inv: "runway_inv (globals s)" "threads_inv s"
    by (simp_all add: sys_inv_def)
  have nonneg: "0 \<le> aircraft_on_runway (globals s)"
  proof -
    have "0 \<le> commercial_on_runway (globals s)" "0 \<le> cargo_on_runway (globals s)"
      "0 \<le> emergency_on_runway (globals s)"
      using inv(2) by (simp_all add: threads_inv_def count_where_nonneg)
    with inv(1) show ?thesis by (simp add: runway_inv_def)
  qed
  have adm: "aircraft_on_runway (globals s') = aircraft_on_runway (globals s) + 1
             \<and> (commercial_on_runway (globals s') = commercial_on_runway (globals s) + 1
                  \<and> cargo_on_runway (globals s') = cargo_on_runway (globals s)
                  \<and> emergency_on_runway (globals s') = emergency_on_runway (globals s)
                \<or> commercial_on_runway (globals s') = commercial_on_runway (globals s)
                  \<and> cargo_on_runway (globals s') = cargo_on_runway (globals s) + 1
                  \<and> emergency_on_runway (globals s') = emergency_on_runway (globals s)
                \<or> commercial_on_runway (globals s') = commercial_on_runway (globals s)
                  \<and> cargo_on_runway (globals s') = cargo_on_runway (globals s)
                  \<and> emergency_on_runway (globals s') = emergency_on_runway (globals s) + 1)"
    if "step e s = Inr s'" "admitted e s s' \<noteq> None" for e s'
  proof -
    from that(2) obtain c where "admitted e s s' = Some c" by auto
    from admitted_counters(1,5,6,7)[OF that(1) this] show ?thesis by auto
  qed
  have lv: "aircraft_on_runway (globals s') = aircraft_on_runway (globals s) - 1
             \<and> (commercial_on_runway (globals s') = commercial_on_runway (globals s) - 1
                  \<and> cargo_on_runway (globals s') = cargo_on_runway (globals s)
                  \<and> emergency_on_runway (globals s') = emergency_on_runway (globals s)
                \<or> commercial_on_runway (globals s') = commercial_on_runway (globals s)
                  \<and> cargo_on_runway (globals s') = cargo_on_runway (globals s) - 1
                  \<and> emergency_on_runway (globals s') = emergency_on_runway (globals s)
                \<or> commercial_on_runway (globals s') = commercial_on_runway (globals s)
                  \<and> cargo_on_runway (globals s') = cargo_on_runway (globals s)
                  \<and> emergency_on_runway (globals s') = emergency_on_runway (globals s) - 1)"
    if "step (Leave i) s = Inr s'" for i s'
    using leave_counters(1-4)[OF leave_step(1)[OF that]] by auto
  have deny: "can_enter_common (globals s) a d fe = 0"
    if "aircraft_on_runway (globals s) \<ge> 2" for a :: thread and d fe
    using that by (simp add: can_enter_common_def runway_consts)
  from nonneg inv(1) adm lv deny show ?thesis
    unfolding runway_inv_def runway_consts by blast
qed

theorem occupancy_invariant_witness:
  "run (one_up_trace @ [Enter 1 0]) (init_sys stall_fleet) = Inr two_up_state
   \<and> aircraft_on_runway (globals two_up_state) = 2
   \<and> commercial_on_runway (globals two_up_state) + cargo_on_runway (globals two_up_state)
       + emergency_on_runway (globals two_up_state) = 2
   \<and> can_enter_common (globals two_up_state) (pilot 2 COMMERCIAL 20 0 Started 0) NORTH 0 = 0
   \<and> step (Leave 0) two_up_state = Inr one_left_state
   \<and> aircraft_on_runway (globals one_left_state) = 1
   \<and> commercial_on_runway (globals one_left_state) = 1
   \<and> run one_up_trace (init_sys stall_fleet) = Inr one_up_state
   \<and> step (Enter 1 0) one_up_state = Inr two_up_state
   \<and> admitted (Enter 1 0) one_up_state two_up_state = Some COMMERCIAL
   \<and> aircraft_on_runway (globals one_up_state) = 1
   \<and> commercial_on_runway (globals one_up_state) = 1"
proof -
  note a = occupancy_invariant [OF two_up_run]
  note b = occupancy_invariant [OF one_up_run]
  have two: "aircraft_on_runway (globals two_up_state) = 2"
    by (simp add: two_up_state_def)
  note sum = a [THEN conjunct2, THEN conjunct2, THEN conjunct1]
  from a [THEN conjunct2, THEN conjunct2, THEN conjunct2, THEN conjunct2, THEN conjunct2,
          rule_format, of "pilot 2 COMMERCIAL 20 0 Started 0" NORTH 0] two
  have deny:
    "can_enter_common (globals two_up_state) (pilot 2 COMMERCIAL 20 0 Started 0) NORTH 0 = 0"
    by simp
  from a [THEN conjunct2, THEN conjunct2, THEN conjunct2, THEN conjunct2, THEN conjunct1,
          rule_format, OF two_up_leave]
  have lv:
    "aircraft_on_runway (globals one_left_state) = aircraft_on_runway (globals two_up_state) - 1"
    by (rule conjunct1)
  from b [THEN conjunct2, THEN conjunct2, THEN conjunct2, THEN conjunct1,
          rule_format, of "Enter 1 0" two_up_state] one_up_step one_up_admitted
  have ad:
    "aircraft_on_runway (globals two_up_state) = aircraft_on_runway (globals one_up_state) + 1"
    by simp
  have lc: "commercial_on_runway (globals one_left_state) = 1"
    "commercial_on_runway (globals one_up_state) = 1"
    by (simp_all add: one_left_state_def one_up_state_def)
  from two sum deny lv ad lc two_up_run two_up_leave one_up_run one_up_step one_up_admitted
  show ?thesis by simp
qed

section \<open>Class segregation\<close>

text \<open>
  C3. In every state the program reaches \<open>commercial_on_runway\<close> and \<open>cargo_on_runway\<close>
  are not both positive: the predicate denies a commercial request while a cargo aircraft
  is on the runway and a cargo request while a commercial aircraft is, every step keeps
  the property, and the assertions of lines 664 and 739 hold for every thread on the
  runway.
\<close>

theorem class_segregation:
  assumes "run es (init_sys ai) = Inr s"
  shows "\<not> (commercial_on_runway (globals s) > 0 \<and> cargo_on_runway (globals s) > 0)
       \<and> (\<forall>a d fe. aircraft_type a = COMMERCIAL \<and> cargo_on_runway (globals s) > 0 \<longrightarrow>
             can_enter_common (globals s) (a :: thread) d fe = 0)
       \<and> (\<forall>a d fe. aircraft_type a = CARGO \<and> commercial_on_runway (globals s) > 0 \<longrightarrow>
             can_enter_common (globals s) (a :: thread) d fe = 0)
       \<and> (\<forall>e s'. step e s = Inr s' \<longrightarrow>
             \<not> (commercial_on_runway (globals s') > 0 \<and> cargo_on_runway (globals s') > 0))
       \<and> (\<forall>i < length (threads s). phase (threads s ! i) = OnRunway \<longrightarrow>
             (aircraft_type (threads s ! i) = COMMERCIAL \<longrightarrow> cargo_on_runway (globals s) = 0) \<and>
             (aircraft_type (threads s ! i) = CARGO \<longrightarrow> commercial_on_runway (globals s) = 0))"
proof -
  from reachable_inv[OF assms] have inv: "sys_inv s" .
  then have seg: "\<not> (commercial_on_runway (globals s) > 0 \<and> cargo_on_runway (globals s) > 0)"
    by (simp add: sys_inv_def runway_inv_def)
  have d1: "can_enter_common (globals s) a d fe = 0"
    if "aircraft_type a = COMMERCIAL \<and> cargo_on_runway (globals s) > 0" for a :: thread and d fe
    using that by (simp add: can_enter_common_def)
  have d2: "can_enter_common (globals s) a d fe = 0"
    if "aircraft_type a = CARGO \<and> commercial_on_runway (globals s) > 0" for a :: thread and d fe
    using that by (simp add: can_enter_common_def)
  have nxt: "\<not> (commercial_on_runway (globals s') > 0 \<and> cargo_on_runway (globals s') > 0)"
    if "step e s = Inr s'" for e s'
    using step_inv[OF that inv] by (simp add: sys_inv_def runway_inv_def)
  have asrt: "(aircraft_type (threads s ! i) = COMMERCIAL \<longrightarrow> cargo_on_runway (globals s) = 0) \<and>
             (aircraft_type (threads s ! i) = CARGO \<longrightarrow> commercial_on_runway (globals s) = 0)"
    if i: "i < length (threads s)" and ph: "phase (threads s ! i) = OnRunway" for i
  proof -
    from inv have t: "threads_inv s" by (simp add: sys_inv_def)
    have nn: "0 \<le> commercial_on_runway (globals s)" "0 \<le> cargo_on_runway (globals s)"
      using t by (simp_all add: threads_inv_def count_where_nonneg)
    have "0 < commercial_on_runway (globals s)" if "aircraft_type (threads s ! i) = COMMERCIAL"
      using t count_where_pos[OF i, of "on_runway_of COMMERCIAL"] ph that
      by (simp add: threads_inv_def on_runway_of_def)
    moreover have "0 < cargo_on_runway (globals s)" if "aircraft_type (threads s ! i) = CARGO"
      using t count_where_pos[OF i, of "on_runway_of CARGO"] ph that
      by (simp add: threads_inv_def on_runway_of_def)
    ultimately show ?thesis using seg nn by fastforce
  qed
  from seg d1 d2 nxt asrt show ?thesis by blast
qed

theorem class_segregation_witness:
  "run one_up_trace (init_sys stall_fleet) = Inr one_up_state
   \<and> commercial_on_runway (globals one_up_state) = 1
   \<and> cargo_on_runway (globals one_up_state) = 0
   \<and> can_enter_common (globals one_up_state) (pilot 4 CARGO 40 0 Started 0) SOUTH 0 = 0
   \<and> step (Enter 1 0) one_up_state = Inr two_up_state
   \<and> \<not> (commercial_on_runway (globals two_up_state) > 0
        \<and> cargo_on_runway (globals two_up_state) > 0)"
proof -
  note a = class_segregation [OF one_up_run]
  have c: "commercial_on_runway (globals one_up_state) = 1"
    by (simp add: one_up_state_def)
  have ty: "aircraft_type (pilot 4 CARGO 40 0 Started 0) = CARGO"
    by (simp add: pilot_def)
  have ph: "0 < length (threads one_up_state)" "phase (threads one_up_state ! 0) = OnRunway"
    "aircraft_type (threads one_up_state ! 0) = COMMERCIAL"
    by (simp_all add: one_up_state_def pilot_def)
  from a [THEN conjunct2, THEN conjunct2, THEN conjunct1, rule_format,
          of "pilot 4 CARGO 40 0 Started 0" SOUTH 0] ty c
  have deny: "can_enter_common (globals one_up_state) (pilot 4 CARGO 40 0 Started 0) SOUTH 0 = 0"
    by simp
  from a [THEN conjunct2, THEN conjunct2, THEN conjunct2, THEN conjunct1, rule_format,
          OF one_up_step]
  have nxt: "\<not> (commercial_on_runway (globals two_up_state) > 0
        \<and> cargo_on_runway (globals two_up_state) > 0)" .
  from a [THEN conjunct2, THEN conjunct2, THEN conjunct2, THEN conjunct2, rule_format,
          OF ph(1) ph(2)] ph(3)
  have cg: "cargo_on_runway (globals one_up_state) = 0" by simp
  from c deny nxt cg one_up_run one_up_step show ?thesis by simp
qed

section \<open>The break gate\<close>

text \<open>
  C4. No admission happens while \<open>aircraft_since_break\<close> is 8 or more. After
  \<open>initialize\<close> has set the counter to 0, the only step that sets it to 0 is the completion
  of \<open>take_break\<close>: every other step leaves it as it is or adds one to it, giving a value
  other than 0. \<open>take_break\<close> runs, from its start to its completion, with an empty
  runway.
\<close>

theorem break_gate:
  assumes "run es (init_sys ai) = Inr s" and "step e s = Inr s'"
  shows "(admitted e s s' \<noteq> None \<longrightarrow> aircraft_since_break (globals s) < CONTROLLER_LIMIT)
       \<and> (\<not> (e = Ctrl_done \<and> controller s = CBreak) \<longrightarrow>
            aircraft_since_break (globals s') = aircraft_since_break (globals s)
            \<or> aircraft_since_break (globals s') = aircraft_since_break (globals s) + 1
              \<and> aircraft_since_break (globals s') \<noteq> 0)
       \<and> (e = Ctrl_done \<and> controller s = CBreak \<longrightarrow>
            aircraft_since_break (globals s') = 0
            \<and> aircraft_on_runway (globals s) = 0 \<and> aircraft_on_runway (globals s') = 0)
       \<and> (controller s' = CBreak \<longrightarrow> aircraft_on_runway (globals s') = 0)
       \<and> aircraft_since_break (globals (init_sys ai)) = 0"
proof -
  from reachable_inv[OF assms(1)] have inv: "sys_inv s" .
  from step_inv[OF assms(2) inv] have inv': "sys_inv s'" .
  have a: "aircraft_since_break (globals s) < CONTROLLER_LIMIT" if "admitted e s s' \<noteq> None"
  proof -
    from that obtain c where "admitted e s s' = Some c" by auto
    from admitted_counters(9)[OF assms(2) this] show ?thesis by (simp add: runway_consts)
  qed
  have b: "aircraft_since_break (globals s') = aircraft_since_break (globals s)
            \<or> aircraft_since_break (globals s') = aircraft_since_break (globals s) + 1
              \<and> aircraft_since_break (globals s') \<noteq> 0"
    if "\<not> (e = Ctrl_done \<and> controller s = CBreak)"
    using step_break_counter[OF assms(2) that] inv
    by (auto simp: sys_inv_def runway_inv_def)
  have c: "aircraft_since_break (globals s') = 0
            \<and> aircraft_on_runway (globals s) = 0 \<and> aircraft_on_runway (globals s') = 0"
    if "e = Ctrl_done \<and> controller s = CBreak"
    using done_step(4)[of s s'] assms(2) that by auto
  have d: "aircraft_on_runway (globals s') = 0" if "controller s' = CBreak"
    using inv' that by (simp add: sys_inv_def maintenance_inv_def)
  have e: "aircraft_since_break (globals (init_sys ai)) = 0"
    by (simp add: init_sys_def init_runway_def)
  show ?thesis
    by (intro conjI; (rule impI, erule a | rule impI, erule b | rule impI, erule c
          | rule impI, erule d | rule e))
qed

theorem break_gate_witness:
  "run break_trace (init_sys break_fleet) = Inr break_state
   \<and> step Ctrl_done break_state = Inr break_done_state
   \<and> controller break_state = CBreak
   \<and> aircraft_since_break (globals break_state) = 8
   \<and> aircraft_since_break (globals break_done_state) = 0
   \<and> aircraft_on_runway (globals break_state) = 0
   \<and> aircraft_on_runway (globals break_done_state) = 0
   \<and> run one_up_trace (init_sys stall_fleet) = Inr one_up_state
   \<and> step (Enter 1 0) one_up_state = Inr two_up_state
   \<and> admitted (Enter 1 0) one_up_state two_up_state = Some COMMERCIAL
   \<and> aircraft_since_break (globals one_up_state) < CONTROLLER_LIMIT
   \<and> aircraft_since_break (globals two_up_state) = aircraft_since_break (globals one_up_state) + 1"
proof -
  note a = break_gate [OF break_run break_step]
  note b = break_gate [OF one_up_run one_up_step]
  have c: "controller break_state = CBreak" "aircraft_since_break (globals break_state) = 8"
    by (simp_all add: break_state_def)
  from a [THEN conjunct2, THEN conjunct2, THEN conjunct1] c(1)
  have fin: "aircraft_since_break (globals break_done_state) = 0
            \<and> aircraft_on_runway (globals break_state) = 0
            \<and> aircraft_on_runway (globals break_done_state) = 0"
    by simp
  from b [THEN conjunct1] one_up_admitted
  have lt: "aircraft_since_break (globals one_up_state) < CONTROLLER_LIMIT" by simp
  have v: "aircraft_since_break (globals two_up_state) \<noteq> aircraft_since_break (globals one_up_state)"
    by (simp add: two_up_state_def one_up_state_def)
  from b [THEN conjunct2, THEN conjunct1] v
  have inc: "aircraft_since_break (globals two_up_state)
              = aircraft_since_break (globals one_up_state) + 1"
    by simp
  from c fin lt inc break_run break_step one_up_run one_up_step one_up_admitted
  show ?thesis by simp
qed

section \<open>Waking the waiters\<close>

text \<open>
  C5 (as amended). A release, the completion of a break and the completion of a direction
  switch each broadcast once on \<open>cond_aircraft\<close>. An admission does not broadcast: the
  three enter functions unlock and return without a call of \<open>pthread_cond_broadcast\<close>.
\<close>

theorem broadcast_on_release_and_maintenance:
  assumes "step e s = Inr s'"
  shows "((\<exists>i. e = Leave i) \<longrightarrow> cond_aircraft s' = Suc (cond_aircraft s))
       \<and> (e = Ctrl_done \<longrightarrow> cond_aircraft s' = Suc (cond_aircraft s))
       \<and> (admitted e s s' \<noteq> None \<longrightarrow> cond_aircraft s' = cond_aircraft s)"
proof -
  have a: "cond_aircraft s' = Suc (cond_aircraft s)" if "\<exists>i. e = Leave i"
    using that assms leave_step(4) by blast
  have b: "cond_aircraft s' = Suc (cond_aircraft s)" if "e = Ctrl_done"
    using that assms done_step(3) by blast
  have c: "cond_aircraft s' = cond_aircraft s" if "admitted e s s' \<noteq> None"
  proof -
    from that obtain c where "admitted e s s' = Some c" by auto
    from admitted_counters(12)[OF assms this] show ?thesis .
  qed
  show ?thesis
    by (intro conjI; rule impI; (erule a | erule b | erule c))
qed

theorem broadcast_on_release_and_maintenance_witness:
  "step (Leave 0) two_up_state = Inr one_left_state
   \<and> cond_aircraft one_left_state = Suc (cond_aircraft two_up_state)
   \<and> step Ctrl_done switch_state = Inr switch_done_state
   \<and> cond_aircraft switch_done_state = Suc (cond_aircraft switch_state)
   \<and> step Ctrl_done break_state = Inr break_done_state
   \<and> cond_aircraft break_done_state = Suc (cond_aircraft break_state)
   \<and> step (Enter 1 0) one_up_state = Inr two_up_state
   \<and> admitted (Enter 1 0) one_up_state two_up_state = Some COMMERCIAL
   \<and> cond_aircraft two_up_state = cond_aircraft one_up_state"
proof -
  from broadcast_on_release_and_maintenance [OF two_up_leave, THEN conjunct1]
  have a: "cond_aircraft one_left_state = Suc (cond_aircraft two_up_state)" by simp
  from broadcast_on_release_and_maintenance [OF switch_step, THEN conjunct2, THEN conjunct1]
  have b: "cond_aircraft switch_done_state = Suc (cond_aircraft switch_state)" by simp
  from broadcast_on_release_and_maintenance [OF break_step, THEN conjunct2, THEN conjunct1]
  have c: "cond_aircraft break_done_state = Suc (cond_aircraft break_state)" by simp
  from broadcast_on_release_and_maintenance [OF one_up_step, THEN conjunct2, THEN conjunct2]
    one_up_admitted
  have d: "cond_aircraft two_up_state = cond_aircraft one_up_state" by simp
  from a b c d two_up_leave switch_step break_step one_up_step one_up_admitted
  show ?thesis by simp
qed

text \<open>
  The claim as it was stated fails for the admission: in the run below the emergency
  aircraft is admitted while a commercial aircraft is blocked, the admission turns the
  predicate of the blocked aircraft from 0 to 1, and no broadcast is made.
\<close>

theorem admission_without_broadcast:
  "run stall_trace (init_sys stall_fleet) = Inr stall_state
   \<and> step (Retry 3 75) stall_state = Inr stall_released_state
   \<and> admitted (Retry 3 75) stall_state stall_released_state = Some EMERGENCY
   \<and> phase (threads stall_state ! 2) = Waiting
   \<and> phase (threads stall_released_state ! 2) = Waiting
   \<and> can_enter_common (globals stall_state) (threads stall_state ! 2) NORTH 1 = 0
   \<and> can_enter_common (globals stall_released_state) (threads stall_released_state ! 2) NORTH 1 = 1
   \<and> cond_aircraft stall_released_state = cond_aircraft stall_state"
proof -
  have "phase (threads stall_state ! 2) = Waiting"
    "phase (threads stall_released_state ! 2) = Waiting"
    "can_enter_common (globals stall_state) (threads stall_state ! 2) NORTH 1 = 0"
    "can_enter_common (globals stall_released_state) (threads stall_released_state ! 2) NORTH 1 = 1"
    "cond_aircraft stall_released_state = cond_aircraft stall_state"
    by (simp_all add: stall_state_def stall_released_state_def pilot_def can_enter_common_def
        opposite_waiting_def other_type_waiting_def runway_consts)
  with stall_run stall_release stall_release_admitted show ?thesis by simp
qed

section \<open>Direction switches and maintenance\<close>

text \<open>
  C6. \<open>current_direction\<close> changes only in the step that completes \<open>switch_direction\<close>,
  taken by the controller with the runway empty before and after it; that step flips the
  direction and sets \<open>consecutive_direction\<close> to 0. While a maintenance action (break or
  switch) is in progress the runway is empty in every state, and the only steps that can
  happen are the creation of a thread and the completion of the action, neither of which
  changes the occupancy.
\<close>

theorem direction_switch:
  assumes "run es (init_sys ai) = Inr s" and "step e s = Inr s'"
  shows "(current_direction (globals s') \<noteq> current_direction (globals s) \<longrightarrow>
            e = Ctrl_done \<and> controller s = CSwitch
            \<and> aircraft_on_runway (globals s) = 0 \<and> aircraft_on_runway (globals s') = 0)
       \<and> (e = Ctrl_done \<and> controller s = CSwitch \<longrightarrow>
            current_direction (globals s') = opposite_direction (current_direction (globals s))
            \<and> current_direction (globals s') \<noteq> current_direction (globals s)
            \<and> consecutive_direction (globals s') = 0
            \<and> aircraft_on_runway (globals s) = 0 \<and> aircraft_on_runway (globals s') = 0)
       \<and> (controller s \<noteq> CIdle \<longrightarrow>
            aircraft_on_runway (globals s) = 0 \<and> aircraft_on_runway (globals s') = 0
            \<and> ((\<exists>i t. e = Start i t) \<or> e = Ctrl_done))
       \<and> (controller s' \<noteq> CIdle \<longrightarrow> aircraft_on_runway (globals s') = 0)"
proof -
  from reachable_inv[OF assms(1)] have inv: "sys_inv s" .
  from step_inv[OF assms(2) inv] have inv': "sys_inv s'" .
  have m: "aircraft_on_runway (globals s) = 0" if "controller s \<noteq> CIdle"
    using inv that by (simp add: sys_inv_def maintenance_inv_def)
  have m': "aircraft_on_runway (globals s') = 0" if "controller s' \<noteq> CIdle"
    using inv' that by (simp add: sys_inv_def maintenance_inv_def)
  have sw: "current_direction (globals s') = opposite_direction (current_direction (globals s))
            \<and> current_direction (globals s') \<noteq> current_direction (globals s)
            \<and> consecutive_direction (globals s') = 0
            \<and> aircraft_on_runway (globals s) = 0 \<and> aircraft_on_runway (globals s') = 0"
    if "e = Ctrl_done \<and> controller s = CSwitch"
  proof -
    from that assms(2) have g': "globals s' = switch_direction_finish (globals s)"
      using done_step(5) by blast
    from that m have "aircraft_on_runway (globals s) = 0" by simp
    with g' show ?thesis
      by (simp add: switch_direction_finish_def opposite_direction_def runway_consts)
  qed
  have a: "e = Ctrl_done \<and> controller s = CSwitch
            \<and> aircraft_on_runway (globals s) = 0 \<and> aircraft_on_runway (globals s') = 0"
    if "current_direction (globals s') \<noteq> current_direction (globals s)"
    using step_direction[OF assms(2)] that sw by blast
  have c: "aircraft_on_runway (globals s) = 0 \<and> aircraft_on_runway (globals s') = 0
            \<and> ((\<exists>i t. e = Start i t) \<or> e = Ctrl_done)"
    if c: "controller s \<noteq> CIdle"
  proof -
    from step_while_maintenance[OF assms(2) c] have ev: "(\<exists>i t. e = Start i t) \<or> e = Ctrl_done" .
    have "aircraft_on_runway (globals s') = aircraft_on_runway (globals s)"
    proof (cases "e = Ctrl_done")
      case True
      with assms(2) have st: "step Ctrl_done s = Inr s'" by simp
      show ?thesis
      proof (cases "controller s")
        case CIdle
        with c show ?thesis by simp
      next
        case CBreak
        from done_step(4)[OF st CBreak] have "globals s' = (globals s)\<lparr>aircraft_since_break := 0\<rparr>"
          by simp
        then show ?thesis by simp
      next
        case CSwitch
        from done_step(5)[OF st CSwitch] show ?thesis by (simp add: switch_direction_finish_def)
      qed
    next
      case False
      with ev obtain i t where "e = Start i t" by blast
      with assms(2) start_step(1)[of i t s s'] show ?thesis by simp
    qed
    with m[OF c] ev show ?thesis by simp
  qed
  show ?thesis
    by (intro conjI; rule impI; (erule a | erule sw | erule c | erule m'))
qed

theorem direction_switch_witness:
  "run switch_trace (init_sys switch_fleet) = Inr switch_state
   \<and> step Ctrl_done switch_state = Inr switch_done_state
   \<and> controller switch_state = CSwitch
   \<and> current_direction (globals switch_state) = NORTH
   \<and> current_direction (globals switch_done_state) = SOUTH
   \<and> consecutive_direction (globals switch_done_state) = 0
   \<and> aircraft_on_runway (globals switch_state) = 0
   \<and> aircraft_on_runway (globals switch_done_state) = 0"
proof -
  note a = direction_switch [OF switch_run switch_step]
  have c: "controller switch_state = CSwitch" "current_direction (globals switch_state) = NORTH"
    by (simp_all add: switch_state_def runway_consts)
  from a [THEN conjunct2, THEN conjunct1] c
  have d: "current_direction (globals switch_done_state) = SOUTH
         \<and> consecutive_direction (globals switch_done_state) = 0
         \<and> aircraft_on_runway (globals switch_state) = 0
         \<and> aircraft_on_runway (globals switch_done_state) = 0"
    by (simp add: opposite_direction_def)
  from c d switch_run switch_step show ?thesis by simp
qed

section \<open>Fairness between the standard classes\<close>

text \<open>
  C7. In every execution, a step that admits a standard class after four or more
  consecutive admissions of that class (emergency admissions not counted) happens only
  when no thread of the other standard class is waiting. The predicate denies a standard
  request when \<open>regular_type_count\<close> is at least 4, \<open>last_regular_type\<close> is its class and
  the other class has a positive waiting count. A standard admission sets
  \<open>last_regular_type\<close> to the admitted class and adds one to \<open>regular_type_count\<close> when
  the class is unchanged, and sets it to 1 otherwise; an emergency admission leaves both
  fields as they are. \<open>regular_type_count\<close> is the length of the current run in the
  record of admissions.
\<close>

theorem fairness_run_limit:
  assumes "run_log es (init_sys ai, []) = Inr (s, log)"
    and "step e s = Inr s'" and "admitted e s s' = Some c"
  shows "((c = COMMERCIAL \<or> c = CARGO) \<and> 4 \<le> standard_run c log \<longrightarrow>
            (\<forall>j < length (threads s). \<not> waiting_as (other_class c) (threads s ! j)))
       \<and> (\<forall>a d fe. (aircraft_type a = COMMERCIAL \<or> aircraft_type a = CARGO)
              \<and> regular_type_count (globals s) \<ge> 4
              \<and> last_regular_type (globals s) = aircraft_type a
              \<and> waiting_of_class (globals s) (other_class (aircraft_type a)) > 0 \<longrightarrow>
              can_enter_common (globals s) (a :: thread) d fe = 0)
       \<and> (c = COMMERCIAL \<or> c = CARGO \<longrightarrow>
            last_regular_type (globals s') = c
            \<and> regular_type_count (globals s') =
                (if last_regular_type (globals s) = c then regular_type_count (globals s) + 1
                 else 1))
       \<and> (c \<noteq> COMMERCIAL \<and> c \<noteq> CARGO \<longrightarrow>
            last_regular_type (globals s') = last_regular_type (globals s)
            \<and> regular_type_count (globals s') = regular_type_count (globals s))
       \<and> regular_type_count (globals s) = int (standard_run (last_regular_type (globals s)) log)"
proof -
  from run_log_inv[OF assms(1) init_inv init_fairness_inv]
  have inv: "sys_inv s" and fair: "fairness_inv (globals s) log" by simp_all
  from inv have t: "threads_inv s" by (simp add: sys_inv_def)
  note f = admitted_fairness[OF assms(2,3)]
  have a: "\<forall>j < length (threads s). \<not> waiting_as (other_class c) (threads s ! j)"
    if h: "(c = COMMERCIAL \<or> c = CARGO) \<and> 4 \<le> standard_run c log"
  proof -
    from fairness_inv_head[OF fair conjunct1[OF h] conjunct2[OF h]]
    have l: "last_regular_type (globals s) = c" "regular_type_count (globals s) \<ge> 4" by simp_all
    from h have "c = 0 \<or> c = 1" by (simp add: runway_consts)
    then have "count_where (waiting_as (other_class c)) (threads s) \<le> 0"
    proof
      assume c: "c = 0"
      with f(3) l have "waiting_cargo (globals s) \<le> 0" by simp
      with t c show ?thesis by (simp add: threads_inv_def other_class_def runway_consts)
    next
      assume c: "c = 1"
      with f(4) l have "waiting_commercial (globals s) \<le> 0" by simp
      with t c show ?thesis by (simp add: threads_inv_def other_class_def runway_consts)
    qed
    then show ?thesis using count_where_zero by blast
  qed
  have b: "\<forall>a d fe. (aircraft_type a = COMMERCIAL \<or> aircraft_type a = CARGO)
              \<and> regular_type_count (globals s) \<ge> 4
              \<and> last_regular_type (globals s) = aircraft_type a
              \<and> waiting_of_class (globals s) (other_class (aircraft_type a)) > 0 \<longrightarrow>
              can_enter_common (globals s) (a :: thread) d fe = 0"
    by (auto simp: can_enter_common_def other_type_waiting_def waiting_of_class_def
        other_class_def runway_consts)
  have c: "last_regular_type (globals s') = c
            \<and> regular_type_count (globals s') =
                (if last_regular_type (globals s) = c then regular_type_count (globals s) + 1
                 else 1)"
    if "c = COMMERCIAL \<or> c = CARGO"
    using f(1,2) that by (simp add: runway_consts)
  have d: "last_regular_type (globals s') = last_regular_type (globals s)
            \<and> regular_type_count (globals s') = regular_type_count (globals s)"
    if "c \<noteq> COMMERCIAL \<and> c \<noteq> CARGO"
    using f(1,2) that by (simp add: runway_consts)
  note e = fairness_inv_run_length[OF fair]
  show ?thesis
    by (intro conjI; (rule impI, erule a | rule b | rule impI, erule c | rule impI, erule d | rule e))
qed

theorem fairness_run_limit_witness:
  "run_log fair_trace (init_sys fair_fleet, []) = Inr (fair_state, [0, 0, 0, 0])
   \<and> step (Enter 4 0) fair_state = Inr fair_next_state
   \<and> admitted (Enter 4 0) fair_state fair_next_state = Some COMMERCIAL
   \<and> standard_run COMMERCIAL [0, 0, 0, 0] = 4
   \<and> \<not> waiting_as (other_class COMMERCIAL) (threads fair_state ! 5)
   \<and> last_regular_type (globals fair_next_state) = COMMERCIAL
   \<and> regular_type_count (globals fair_state) = 4
   \<and> regular_type_count (globals fair_next_state) = 5"
proof -
  note a = fairness_run_limit [OF fair_run fair_step fair_admitted]
  have r: "standard_run COMMERCIAL [0, 0, 0, 0] = 4"
    by (simp add: standard_run_def runway_consts)
  have l: "(5::nat) < length (threads fair_state)" "last_regular_type (globals fair_state) = COMMERCIAL"
    by (simp_all add: fair_state_def runway_consts)
  from a [THEN conjunct1] r
  have "\<forall>j < length (threads fair_state). \<not> waiting_as (other_class COMMERCIAL) (threads fair_state ! j)"
    by simp
  with l(1) have w: "\<not> waiting_as (other_class COMMERCIAL) (threads fair_state ! 5)" by blast
  from a [THEN conjunct2, THEN conjunct2, THEN conjunct2, THEN conjunct2] l(2) r
  have c4: "regular_type_count (globals fair_state) = 4" by simp
  from a [THEN conjunct2, THEN conjunct2, THEN conjunct1] l(2) c4
  have c5: "last_regular_type (globals fair_next_state) = COMMERCIAL
          \<and> regular_type_count (globals fair_next_state) = 5" by simp
  from r w c4 c5 fair_run fair_step fair_admitted show ?thesis by simp
qed

section \<open>The direction counters\<close>

text \<open>
  C9. In every state the program reaches \<open>waiting_north\<close> equals \<open>waiting_commercial\<close>
  and \<open>waiting_south\<close> equals \<open>waiting_cargo\<close>; they are the numbers of blocked
  commercial and blocked cargo threads, so a blocked emergency thread is counted in
  \<open>waiting_emergency\<close> only. The controller's decision, its count of waiters for the
  current direction and the opposite-direction count of the predicate do not depend on
  \<open>waiting_emergency\<close>.
\<close>

theorem direction_counters_standard_only:
  assumes "run es (init_sys ai) = Inr s"
  shows "waiting_north (globals s) = waiting_commercial (globals s)
       \<and> waiting_south (globals s) = waiting_cargo (globals s)
       \<and> waiting_north (globals s) = count_where (waiting_as COMMERCIAL) (threads s)
       \<and> waiting_south (globals s) = count_where (waiting_as CARGO) (threads s)
       \<and> waiting_emergency (globals s) = count_where (waiting_as EMERGENCY) (threads s)
       \<and> (\<forall>n. controller_decision ((globals s)\<lparr>waiting_emergency := n\<rparr>)
                = controller_decision (globals s))
       \<and> (\<forall>n. same_waiting ((globals s)\<lparr>waiting_emergency := n\<rparr>) = same_waiting (globals s))
       \<and> (\<forall>n. opposite_waiting ((globals s)\<lparr>waiting_emergency := n\<rparr>)
                = opposite_waiting (globals s))"
proof -
  from reachable_inv[OF assms] have "runway_inv (globals s)" "threads_inv s"
    by (simp_all add: sys_inv_def)
  then show ?thesis
    by (simp add: runway_inv_def threads_inv_def controller_decision_def same_waiting_def
        opposite_waiting_def)
qed

theorem direction_counters_standard_only_witness:
  "run stall_trace (init_sys stall_fleet) = Inr stall_state
   \<and> waiting_north (globals stall_state) = 1
   \<and> waiting_commercial (globals stall_state) = 1
   \<and> waiting_south (globals stall_state) = 0
   \<and> waiting_cargo (globals stall_state) = 0
   \<and> waiting_emergency (globals stall_state) = 1
   \<and> count_where (waiting_as COMMERCIAL) (threads stall_state) = 1
   \<and> count_where (waiting_as EMERGENCY) (threads stall_state) = 1
   \<and> controller_decision ((globals stall_state)\<lparr>waiting_emergency := 0\<rparr>)
       = controller_decision (globals stall_state)"
proof -
  note a = direction_counters_standard_only [OF stall_run]
  have v: "waiting_commercial (globals stall_state) = 1" "waiting_cargo (globals stall_state) = 0"
    "waiting_emergency (globals stall_state) = 1"
    by (simp_all add: stall_state_def)
  from a [THEN conjunct1] v have n: "waiting_north (globals stall_state) = 1" by simp
  from a [THEN conjunct2, THEN conjunct1] v have s: "waiting_south (globals stall_state) = 0" by simp
  from a [THEN conjunct2, THEN conjunct2, THEN conjunct1] n
  have c: "count_where (waiting_as COMMERCIAL) (threads stall_state) = 1" by simp
  from a [THEN conjunct2, THEN conjunct2, THEN conjunct2, THEN conjunct2, THEN conjunct1] v
  have e: "count_where (waiting_as EMERGENCY) (threads stall_state) = 1" by simp
  from a [THEN conjunct2, THEN conjunct2, THEN conjunct2, THEN conjunct2, THEN conjunct2,
          THEN conjunct1, rule_format, of 0]
  have d: "controller_decision ((globals stall_state)\<lparr>waiting_emergency := 0\<rparr>)
       = controller_decision (globals stall_state)" .
  from v n s c e d stall_run show ?thesis by simp
qed

section \<open>Exit status\<close>

text \<open>
  C8 (as amended). \<open>main\<close> ends with status \<open>EINVAL\<close> when the argument count is not 2,
  with status 1 when the file cannot be opened and with the same status 1 when no
  aircraft was read, in each of the three cases before any thread is created. The number
  of aircraft read never exceeds \<open>MAX_AIRCRAFT\<close>, since reading stops at 1000 records;
  with at least one aircraft read and every thread joined, \<open>main\<close> ends with status 0.
\<close>

theorem main_exit_status:
  "(nargs \<noteq> 2 \<longrightarrow> main einval nargs file rand outcome = (einval, False))
   \<and> (nargs = 2 \<and> file = None \<longrightarrow> main einval nargs file rand outcome = (1, False))
   \<and> (\<forall>ls. nargs = 2 \<and> file = Some ls \<and> read_aircraft ls rand [] = [] \<longrightarrow>
          main einval nargs file rand outcome = (1, False))
   \<and> (\<forall>ls. length (read_aircraft ls rand []) \<le> MAX_AIRCRAFT)
   \<and> (\<forall>ls. nargs = 2 \<and> file = Some ls \<and> read_aircraft ls rand [] \<noteq> [] \<longrightarrow>
          main einval nargs file rand All_joined = (0, True))"
proof -
  have a: "main einval nargs file rand outcome = (einval, False)" if "nargs \<noteq> 2"
    using that by (simp add: main_def)
  have b: "main einval nargs file rand outcome = (1, False)" if "nargs = 2 \<and> file = None"
    using that by (simp add: main_def initialize_def)
  have c: "main einval nargs file rand outcome = (1, False)"
    if "nargs = 2 \<and> file = Some ls \<and> read_aircraft ls rand [] = []" for ls
    using that by (simp add: main_def initialize_def)
  have d: "length (read_aircraft ls rand []) \<le> MAX_AIRCRAFT" for ls
    by (rule read_aircraft_bound) simp
  have e: "main einval nargs file rand All_joined = (0, True)"
    if "nargs = 2 \<and> file = Some ls \<and> read_aircraft ls rand [] \<noteq> []" for ls
    using that d[of ls] by (simp add: main_def initialize_def Let_def)
  show ?thesis
    by (intro conjI allI; (rule impI, erule a | rule impI, erule b | rule impI, erule c
          | rule d | rule impI, erule e))
qed

theorem main_exit_status_witness:
  "main 22 1 None rand_zero All_joined = (22, False)
   \<and> main 22 2 None rand_zero All_joined = (1, False)
   \<and> read_aircraft [(''# no aircraft'', None)] rand_zero [] = []
   \<and> main 22 2 (Some [(''# no aircraft'', None)]) rand_zero All_joined = (1, False)
   \<and> read_aircraft [(''0 0 3'', Some (0, 0, 3))] rand_zero [] = [plane COMMERCIAL 20\<lparr>runway_time := 3\<rparr>]
   \<and> main 22 2 (Some [(''0 0 3'', Some (0, 0, 3))]) rand_zero All_joined = (0, True)"
proof -
  have r0: "read_aircraft [(''# no aircraft'', None)] rand_zero [] = []"
    by (simp add: skipped_def runway_consts)
  have r1: "read_aircraft [(''0 0 3'', Some (0, 0, 3))] rand_zero []
              = [plane COMMERCIAL 20\<lparr>runway_time := 3\<rparr>]"
    by (simp add: skipped_def rand_zero_def plane_def runway_consts)
  from main_exit_status [of 1 22 None rand_zero All_joined, THEN conjunct1]
  have a: "main 22 1 None rand_zero All_joined = (22, False)" by simp
  from main_exit_status [of 2 22 None rand_zero All_joined, THEN conjunct2, THEN conjunct1]
  have b: "main 22 2 None rand_zero All_joined = (1, False)" by simp
  from main_exit_status [of 2 22 "Some [(''# no aircraft'', None)]" rand_zero All_joined,
        THEN conjunct2, THEN conjunct2, THEN conjunct1, rule_format,
        of "[(''# no aircraft'', None)]"] r0
  have c: "main 22 2 (Some [(''# no aircraft'', None)]) rand_zero All_joined = (1, False)"
    by simp
  from main_exit_status [of 2 22 "Some [(''0 0 3'', Some (0, 0, 3))]" rand_zero All_joined,
        THEN conjunct2, THEN conjunct2, THEN conjunct2, THEN conjunct2, rule_format,
        of "[(''0 0 3'', Some (0, 0, 3))]"] r1
  have d: "main 22 2 (Some [(''0 0 3'', Some (0, 0, 3))]) rand_zero All_joined = (0, True)"
    by simp
  from a b c d r0 r1 show ?thesis by simp
qed

text \<open>
  The claim as it was stated asks for a status distinct per cause; the file that cannot
  be opened and the file without aircraft give the same status.
\<close>

theorem exit_status_shared_by_two_causes:
  "fst (main 22 2 None rand_zero All_joined) = 1
   \<and> fst (main 22 2 (Some []) rand_zero All_joined) = 1"
  by (simp add: main_def initialize_def runway_consts)

section \<open>A stall between an escalated standard aircraft and an emergency aircraft\<close>

text \<open>
  C10. There is a reachable state with an empty runway in which every waiting requester
  is denied: a commercial aircraft that has declared a fuel emergency and an emergency
  aircraft that has not are the only waiters; the commercial one passes checks 1 to 5
  and is denied by check 6 (an emergency aircraft is waiting), the emergency one passes
  checks 1 to 4 and is denied by check 5 (a fuel emergency is declared and it is not its
  own). Every retry of the commercial aircraft leaves the state as it is, and so does
  the controller. A retry of the emergency aircraft (arrival 15, reserve 60) leaves the
  state as it is while the wait the code computes, \<open>(int)(now - 15)\<close>, is below 60, and
  admits it once that wait is 60 or more: for the clock values whose difference to the
  arrival fits an \<open>int\<close>, unchanged before 75 and admitted from 75 on.
\<close>

theorem escalated_standard_blocks_emergency:
  "run stall_trace (init_sys stall_fleet) = Inr stall_state
   \<and> aircraft_on_runway (globals stall_state) = 0
   \<and> filter (\<lambda>th. phase th = Waiting) (threads stall_state)
       = [pilot 2 COMMERCIAL 20 0 Waiting 1, pilot 3 EMERGENCY 60 15 Waiting 0]
   \<and> first_denial admission_checks (globals stall_state) COMMERCIAL NORTH True 1 = Some 6
   \<and> first_denial admission_checks (globals stall_state) EMERGENCY
        (current_direction (globals stall_state)) False 1 = Some 5
   \<and> can_enter_common (globals stall_state) (pilot 2 COMMERCIAL 20 0 Waiting 1) NORTH 1 = 0
   \<and> can_enter_common (globals stall_state) (pilot 3 EMERGENCY 60 15 Waiting 0)
        (current_direction (globals stall_state)) 0 = 0
   \<and> (\<forall>now. step (Retry 2 now) stall_state = Inr stall_state)
   \<and> (\<forall>now. int_cast (now - 15) < 60 \<longrightarrow>
          step (Retry 3 now) stall_state = Inr stall_state)
   \<and> step Ctrl_poll stall_state = Inr stall_state
   \<and> (\<forall>now. 60 \<le> int_cast (now - 15) \<longrightarrow>
          step (Retry 3 now) stall_state = Inr stall_released_state)
   \<and> phase (threads stall_released_state ! 3) = OnRunway
   \<and> (\<forall>now. 15 - 2147483648 \<le> now \<and> now < 75 \<longrightarrow>
          step (Retry 3 now) stall_state = Inr stall_state)
   \<and> (\<forall>now. 75 \<le> now \<and> now < 15 + 2147483648 \<longrightarrow>
          step (Retry 3 now) stall_state = Inr stall_released_state)"
proof -
  have a: "aircraft_on_runway (globals stall_state) = 0"
    by (simp add: stall_state_def)
  have b: "filter (\<lambda>th. phase th = Waiting) (threads stall_state)
       = [pilot 2 COMMERCIAL 20 0 Waiting 1, pilot 3 EMERGENCY 60 15 Waiting 0]"
    by (simp add: stall_state_def pilot_def)
  have c: "first_denial admission_checks (globals stall_state) COMMERCIAL NORTH True 1 = Some 6"
    by (simp add: stall_state_def admission_checks_def check_defs runway_consts)
  have d: "first_denial admission_checks (globals stall_state) EMERGENCY
        (current_direction (globals stall_state)) False 1 = Some 5"
    by (simp add: stall_state_def admission_checks_def check_defs runway_consts)
  have e: "can_enter_common (globals stall_state) (pilot 2 COMMERCIAL 20 0 Waiting 1) NORTH 1 = 0"
    by (simp add: stall_state_def pilot_def can_enter_common_def runway_consts)
  have f: "can_enter_common (globals stall_state) (pilot 3 EMERGENCY 60 15 Waiting 0)
        (current_direction (globals stall_state)) 0 = 0"
    by (simp add: stall_state_def pilot_def can_enter_common_def runway_consts)
  have g: "step (Retry 2 now) stall_state = Inr stall_state" for now
    by (simp add: stall_state_def pilot_def step_defs runway_consts)
  have h: "step (Retry 3 now) stall_state = Inr stall_state"
    if "int_cast (now - 15) < 60" for now
    using that by (simp add: stall_state_def pilot_def step_defs runway_consts)
  have i: "step Ctrl_poll stall_state = Inr stall_state"
    by (simp add: stall_state_def step_defs runway_consts)
  have j: "step (Retry 3 now) stall_state = Inr stall_released_state"
    if "60 \<le> int_cast (now - 15)" for now
    using that
    by (simp add: stall_state_def stall_released_state_def pilot_def step_defs runway_consts)
  have k: "phase (threads stall_released_state ! 3) = OnRunway"
    by (simp add: stall_released_state_def pilot_def)
  have l: "step (Retry 3 now) stall_state = Inr stall_state"
    if r: "15 - 2147483648 \<le> now \<and> now < 75" for now
  proof -
    from r have "int_cast (now - 15) = now - 15" by (intro int_cast_in_range) simp_all
    with r show ?thesis by (intro h) simp
  qed
  have m: "step (Retry 3 now) stall_state = Inr stall_released_state"
    if r: "75 \<le> now \<and> now < 15 + 2147483648" for now
  proof -
    from r have "int_cast (now - 15) = now - 15" by (intro int_cast_in_range) simp_all
    with r show ?thesis by (intro j) simp
  qed
  show ?thesis
    by (intro conjI allI; (rule stall_run | rule a | rule b | rule c | rule d | rule e | rule f
          | rule g | rule impI, erule h | rule i | rule impI, erule j | rule k
          | rule impI, erule l | rule impI, erule m))
qed

theorem escalated_standard_blocks_emergency_witness:
  "step (Retry 2 1000) stall_state = Inr stall_state
   \<and> int_cast (74 - 15) = 59
   \<and> step (Retry 3 74) stall_state = Inr stall_state
   \<and> int_cast (75 - 15) = 60
   \<and> step (Retry 3 75) stall_state = Inr stall_released_state
   \<and> step (Retry 3 30) stall_state = Inr stall_state
   \<and> step (Retry 3 2000000000) stall_state = Inr stall_released_state"
proof -
  note t = escalated_standard_blocks_emergency
  have c74: "int_cast (74 - 15) = 59" and c75: "int_cast (75 - 15) = 60"
    by (simp_all add: int_cast_def)
  from t [THEN conjunct2, THEN conjunct2, THEN conjunct2, THEN conjunct2, THEN conjunct2,
          THEN conjunct2, THEN conjunct2, THEN conjunct1, rule_format, of 1000]
  have a: "step (Retry 2 1000) stall_state = Inr stall_state" .
  from t [THEN conjunct2, THEN conjunct2, THEN conjunct2, THEN conjunct2, THEN conjunct2,
          THEN conjunct2, THEN conjunct2, THEN conjunct2, THEN conjunct1, rule_format, of 74]
       c74
  have b: "step (Retry 3 74) stall_state = Inr stall_state" by simp
  from t [THEN conjunct2, THEN conjunct2, THEN conjunct2, THEN conjunct2, THEN conjunct2,
          THEN conjunct2, THEN conjunct2, THEN conjunct2, THEN conjunct2, THEN conjunct2,
          THEN conjunct1, rule_format, of 75] c75
  have c: "step (Retry 3 75) stall_state = Inr stall_released_state" by simp
  from t [THEN conjunct2, THEN conjunct2, THEN conjunct2, THEN conjunct2, THEN conjunct2,
          THEN conjunct2, THEN conjunct2, THEN conjunct2, THEN conjunct2, THEN conjunct2,
          THEN conjunct2, THEN conjunct2, THEN conjunct1, rule_format, of 30]
  have d: "step (Retry 3 30) stall_state = Inr stall_state" by simp
  from t [THEN conjunct2, THEN conjunct2, THEN conjunct2, THEN conjunct2, THEN conjunct2,
          THEN conjunct2, THEN conjunct2, THEN conjunct2, THEN conjunct2, THEN conjunct2,
          THEN conjunct2, THEN conjunct2, THEN conjunct2, rule_format, of 2000000000]
  have e: "step (Retry 3 2000000000) stall_state = Inr stall_released_state" by simp
  from a b c d e c74 c75 show ?thesis by simp
qed

end
